theory Spec2Isabelle
  imports Main "HOL-Library.AList" "HOL-Library.Sublist"
begin

section \<open>Strings\<close>

text \<open>
  JavaScript strings are modelled as \<^typ>\<open>string\<close>; the operations below are the ones the
  two page components use. Only the ASCII range is modelled for case folding, white space
  and the alphanumeric character class.
\<close>

definition startsWith :: "string \<Rightarrow> string \<Rightarrow> bool" where
  "startsWith s p = prefix p s"

fun includesStr :: "string \<Rightarrow> string \<Rightarrow> bool" where
  "includesStr [] p = (p = [])"
| "includesStr (c # cs) p = (prefix p (c # cs) \<or> includesStr cs p)"

definition upperCaseLetters :: string where
  "upperCaseLetters = ''ABCDEFGHIJKLMNOPQRSTUVWXYZ''"

definition lowerCaseLetters :: string where
  "lowerCaseLetters = ''abcdefghijklmnopqrstuvwxyz''"

definition digitChars :: string where
  "digitChars = ''0123456789''"

definition toLowerChar :: "char \<Rightarrow> char" where
  "toLowerChar c = (case map_of (zip upperCaseLetters lowerCaseLetters) c of
                      Some l \<Rightarrow> l | None \<Rightarrow> c)"

definition toLowerCase :: "string \<Rightarrow> string" where
  "toLowerCase s = map toLowerChar s"

definition isAlphaNumeric :: "char \<Rightarrow> bool" where
  "isAlphaNumeric c = (c \<in> set (upperCaseLetters @ lowerCaseLetters @ digitChars))"

text \<open>\<^verbatim>\<open>s.replace(/[^A-Za-z0-9]/g, "")\<close>\<close>

definition stripNonAlphaNumeric :: "string \<Rightarrow> string" where
  "stripNonAlphaNumeric s = filter isAlphaNumeric s"

definition isWhiteSpace :: "char \<Rightarrow> bool" where
  "isWhiteSpace c = (c \<in> set [CHR '' '', CHR 0x09, CHR 0x0A, CHR 0x0B, CHR 0x0C, CHR 0x0D])"

definition trim :: "string \<Rightarrow> string" where
  "trim s = rev (dropWhile isWhiteSpace (rev (dropWhile isWhiteSpace s)))"

text \<open>Truthiness of an optional string: \<^verbatim>\<open>undefined\<close>, \<^verbatim>\<open>null\<close> and \<^verbatim>\<open>""\<close> are falsy.\<close>

fun truthy :: "string option \<Rightarrow> bool" where
  "truthy None = False"
| "truthy (Some s) = (s \<noteq> [])"

text \<open>\<^verbatim>\<open>a || b\<close> on optional strings with a string default.\<close>

definition orElse :: "string option \<Rightarrow> string \<Rightarrow> string" where
  "orElse a b = (case a of None \<Rightarrow> b | Some s \<Rightarrow> if s = [] then b else s)"

section \<open>Data model of the detail-fetching page\<close>

record VoucherData =
  code :: "string option"
  cta :: "string option"
  headline :: "string option"
  description :: "string option"
  merchantName :: "string option"

record CachedVoucherData = VoucherData +
  expire :: int
  hidden :: "bool option"

definition CACHE_KEY :: string where
  "CACHE_KEY = ''grabfood-voucher-cache''"

definition CACHE_DURATION :: int where
  "CACHE_DURATION = 2 * 30 * 24 * 60 * 60 * 1000"

definition CATEGORY_VISIBILITY_KEY :: string where
  "CATEGORY_VISIBILITY_KEY = ''voucher-category-visibility''"

definition EXCLUDED_CODES :: "string list" where
  "EXCLUDED_CODES = [''NoCodeRequired'', ''NoCouponRequired'']"

definition shouldExcludeCode :: "string \<Rightarrow> bool" where
  "shouldExcludeCode c = (c \<in> set EXCLUDED_CODES)"

section \<open>The browser store\<close>

text \<open>
  \<^verbatim>\<open>localStorage\<close> maps keys to texts. A text is represented by what \<^verbatim>\<open>JSON.parse\<close>
  makes of it: the serialisation of a cache entry, the serialisation of a category map, or
  any other text. The store is an association list in key order, as \<^verbatim>\<open>Object.keys\<close>
  enumerates it. Writes are assumed to succeed (the store is below its quota).
\<close>

datatype stored =
  CacheJson CachedVoucherData
| CategoryJson "(string \<times> bool) list"
| OtherText string

type_synonym storage = "(string \<times> stored) list"

definition getItem :: "storage \<Rightarrow> string \<Rightarrow> stored option" where
  "getItem ls k = map_of ls k"

definition setItem :: "storage \<Rightarrow> string \<Rightarrow> stored \<Rightarrow> storage" where
  "setItem ls k v = AList.update k v ls"

definition removeItem :: "storage \<Rightarrow> string \<Rightarrow> storage" where
  "removeItem ls k = AList.delete k ls"

definition keys :: "storage \<Rightarrow> string list" where
  "keys ls = map fst ls"

text \<open>
  \<^verbatim>\<open>JSON.parse(cached)\<close> read as a cache entry. \<open>None\<close> stands for the two ways the
  readers give up without touching the store: the text is empty (falsy), or parsing throws
  and the \<^verbatim>\<open>catch\<close> block returns \<^verbatim>\<open>null\<close>. JSON of another shape under a cache key,
  which the unchecked cast of the readers would take for an entry without expiry, is
  answered with \<open>None\<close> as well; the page never stores such a text there, and the
  statements about the cache are made for stores that satisfy \<open>cacheWellFormed\<close> below.
\<close>

fun parseCache :: "stored \<Rightarrow> CachedVoucherData option" where
  "parseCache (CacheJson e) = Some e"
| "parseCache (CategoryJson m) = None"
| "parseCache (OtherText t) = None"

text \<open>The template literal \<^verbatim>\<open>`${CACHE_KEY}-${articleId}`\<close>.\<close>

definition cacheKey :: "string \<Rightarrow> string" where
  "cacheKey articleId = CACHE_KEY @ ''-'' @ articleId"

section \<open>Page state and environment\<close>

record DiscountArticle =
  a_id :: string
  a_dataType :: string
  a_title :: "string option"
  a_content :: "string option"
  a_couponCode :: "string option"
  a_cta :: "string option"
  a_headline :: "string option"
  a_description :: "string option"
  a_merchantName :: "string option"

record CustomVoucher =
  c_id :: string
  c_code :: string
  c_description :: string
  c_cta :: string
  c_merchantName :: "string option"

text \<open>
  Effects that leave the page: requests through the relay (for a list page, plain or with
  the cache-busting time stamp of a hard refresh) and the throttle delay.
\<close>

datatype event =
  PageRequest string
| PageRequestNoCache string int
| DetailRequest string
| Delay nat

record world =
  localStorage :: storage
  tick :: nat
  hiddenVouchers :: "string list"
  hiddenCategories :: "(string \<times> bool) list"
  customVouchers :: "CustomVoucher list"
  discountArticles :: "DiscountArticle list"
  articleIds :: "string list"
  voucherCodes :: "string list"
  isLoading :: bool
  error :: "string option"
  trace :: "event list"

text \<open>
  \<^verbatim>\<open>Date.now()\<close>: the \<open>n\<close>-th call of a run returns \<open>clock n\<close>; \<open>tick\<close> counts the
  calls made so far. Nothing is assumed about the clock, not even that it is monotone.
\<close>

type_synonym clock = "nat \<Rightarrow> int"

definition Date_now :: "clock \<Rightarrow> world \<Rightarrow> int \<times> world" where
  "Date_now clk w = (clk (tick w), w\<lparr>tick := Suc (tick w)\<rparr>)"

section \<open>Cache management\<close>

definition getCachedVoucherDataFull ::
  "clock \<Rightarrow> string \<Rightarrow> world \<Rightarrow> CachedVoucherData option \<times> world" where
  "getCachedVoucherDataFull clk articleId w =
     (case getItem (localStorage w) (cacheKey articleId) of
        None \<Rightarrow> (None, w)
      | Some cached \<Rightarrow>
          (case parseCache cached of
             None \<Rightarrow> (None, w)
           | Some parsedCache \<Rightarrow>
               (case Date_now clk w of (now, w1) \<Rightarrow>
                  if now > expire parsedCache
                  then (None, w1\<lparr>localStorage :=
                                   removeItem (localStorage w1) (cacheKey articleId)\<rparr>)
                  else (Some parsedCache, w1))))"

definition getCachedVoucherData ::
  "clock \<Rightarrow> string \<Rightarrow> world \<Rightarrow> VoucherData option \<times> world" where
  "getCachedVoucherData clk articleId w =
     (case getItem (localStorage w) (cacheKey articleId) of
        None \<Rightarrow> (None, w)
      | Some cached \<Rightarrow>
          (case parseCache cached of
             None \<Rightarrow> (None, w)
           | Some parsedCache \<Rightarrow>
               (case Date_now clk w of (now, w1) \<Rightarrow>
                  if now > expire parsedCache
                  then (None, w1\<lparr>localStorage :=
                                   removeItem (localStorage w1) (cacheKey articleId)\<rparr>)
                  else (Some \<lparr>code = code parsedCache, cta = cta parsedCache,
                              headline = headline parsedCache,
                              description = description parsedCache,
                              merchantName = merchantName parsedCache\<rparr>, w1))))"

text \<open>\<^verbatim>\<open>existingCache?.hidden || false\<close>\<close>

definition hiddenOrFalse :: "CachedVoucherData option \<Rightarrow> bool" where
  "hiddenOrFalse existingCache =
     (case existingCache of None \<Rightarrow> False | Some e \<Rightarrow> (hidden e = Some True))"

definition setCachedVoucherData :: "clock \<Rightarrow> string \<Rightarrow> VoucherData \<Rightarrow> world \<Rightarrow> world" where
  "setCachedVoucherData clk articleId dat w =
     (case getCachedVoucherDataFull clk articleId w of (existingCache, w1) \<Rightarrow>
        (case Date_now clk w1 of (now, w2) \<Rightarrow>
           (let cacheData = \<lparr>code = code dat, cta = cta dat, headline = headline dat,
                             description = description dat, merchantName = merchantName dat,
                             expire = now + CACHE_DURATION,
                             hidden = Some (hiddenOrFalse existingCache)\<rparr>
            in w2\<lparr>localStorage :=
                     setItem (localStorage w2) (cacheKey articleId) (CacheJson cacheData)\<rparr>)))"

text \<open>
  \<^verbatim>\<open>hideVoucher\<close>. The minimal entry and the updated entry each read the clock; the spread
  \<^verbatim>\<open>{...cachedData, expire, hidden: true}\<close> keeps every other field.
\<close>

definition hideVoucher :: "clock \<Rightarrow> string \<Rightarrow> world \<Rightarrow> world" where
  "hideVoucher clk voucherId w =
     (if voucherId \<notin> set (hiddenVouchers w) then
        (case getCachedVoucherDataFull clk voucherId w of (found, w1) \<Rightarrow>
           (case (case found of
                    None \<Rightarrow>
                      (case Date_now clk w1 of (now, w2) \<Rightarrow>
                         (\<lparr>code = None, cta = None, headline = None, description = None,
                           merchantName = None, expire = now + CACHE_DURATION,
                           hidden = Some False\<rparr>, w2))
                  | Some c \<Rightarrow> (c, w1)) of (cachedData, w3) \<Rightarrow>
              (case Date_now clk w3 of (now, w4) \<Rightarrow>
                 (let updatedCache = cachedData\<lparr>expire := now + CACHE_DURATION,
                                                 hidden := Some True\<rparr>
                  in w4\<lparr>localStorage :=
                           setItem (localStorage w4) (cacheKey voucherId) (CacheJson updatedCache),
                         hiddenVouchers := hiddenVouchers w4 @ [voucherId]\<rparr>))))
      else w)"

definition clearVoucherCache :: "world \<Rightarrow> world" where
  "clearVoucherCache w =
     w\<lparr>localStorage :=
         fold (\<lambda>key ls. if startsWith key CACHE_KEY then removeItem ls key else ls)
              (keys (localStorage w)) (localStorage w)\<rparr>"

section \<open>Category visibility\<close>

text \<open>\<^verbatim>\<open>hiddenCategories[category]\<close> used as a condition: a missing key is falsy.\<close>

definition categoryHidden :: "(string \<times> bool) list \<Rightarrow> string \<Rightarrow> bool" where
  "categoryHidden hc category = (map_of hc category = Some True)"

definition saveCategoryVisibility :: "world \<Rightarrow> world" where
  "saveCategoryVisibility w =
     w\<lparr>localStorage := setItem (localStorage w) CATEGORY_VISIBILITY_KEY
                                (CategoryJson (hiddenCategories w))\<rparr>"

definition toggleCategoryVisibility :: "string \<Rightarrow> world \<Rightarrow> world" where
  "toggleCategoryVisibility category w =
     saveCategoryVisibility
       (if category = ''grabfood'' \<or> category = ''foodpanda'' then
          (if categoryHidden (hiddenCategories w) category
           then w\<lparr>hiddenCategories := AList.update category False (hiddenCategories w)\<rparr>
           else (let otherCategory =
                       (if category = ''grabfood'' then ''foodpanda'' else ''grabfood'')
                 in w\<lparr>hiddenCategories :=
                          AList.update otherCategory False
                            (AList.update category True (hiddenCategories w))\<rparr>))
        else w\<lparr>hiddenCategories :=
                 AList.update category (\<not> categoryHidden (hiddenCategories w) category)
                   (hiddenCategories w)\<rparr>)"

definition resetCategoryVisibility :: "world \<Rightarrow> world" where
  "resetCategoryVisibility w =
     w\<lparr>hiddenCategories := [],
       localStorage := removeItem (localStorage w) CATEGORY_VISIBILITY_KEY\<rparr>"

section \<open>Observations used in the statements\<close>

text \<open>The entry physically held in the store for an article id, expired or not.\<close>

definition storedEntry :: "world \<Rightarrow> string \<Rightarrow> CachedVoucherData option" where
  "storedEntry w articleId =
     (case getItem (localStorage w) (cacheKey articleId) of
        None \<Rightarrow> None
      | Some cached \<Rightarrow> parseCache cached)"

text \<open>
  Every text under the cache key namespace is the serialisation of a cache entry. The page
  writes nothing else there: the empty store is well formed, and every operation that
  writes to the store keeps it so.
\<close>

definition cacheWellFormed :: "storage \<Rightarrow> bool" where
  "cacheWellFormed ls =
     list_all (\<lambda>(k, v). startsWith k CACHE_KEY \<longrightarrow> parseCache v \<noteq> None) ls"

definition emptyWorld :: world where
  "emptyWorld =
     \<lparr>localStorage = [], tick = 0, hiddenVouchers = [], hiddenCategories = [],
      customVouchers = [], discountArticles = [], articleIds = [], voucherCodes = [],
      isLoading = False, error = None, trace = []\<rparr>"


text \<open>A store holding one entry for article \<open>a1\<close> that expires at time 100.\<close>

definition staleWorld :: world where
  "staleWorld =
     emptyWorld\<lparr>localStorage :=
       [(cacheKey ''a1'',
         CacheJson \<lparr>code = Some ''OLD5'', cta = None, headline = None, description = None,
                    merchantName = Some ''FoodPanda'', expire = 100, hidden = Some True\<rparr>)]\<rparr>"

section \<open>Sequences of cache reads and writes\<close>





text \<open>The store holds an entry for the id and the next clock reading is not past its expiry.\<close>

definition freshAt :: "clock \<Rightarrow> string \<Rightarrow> world \<Rightarrow> bool" where
  "freshAt clk articleId w =
     (case storedEntry w articleId of None \<Rightarrow> False | Some e \<Rightarrow> clk (tick w) \<le> expire e)"



section \<open>Aggregation into the display list\<close>

text \<open>
  An element of \<^verbatim>\<open>combinedVouchers\<close> is the spread of a custom voucher or of a scraped
  article together with the derived fields \<^verbatim>\<open>isCustom\<close> and \<^verbatim>\<open>voucherCode\<close>.
\<close>

datatype displayVoucher =
  FromCustom CustomVoucher
| FromArticle DiscountArticle

fun isCustom :: "displayVoucher \<Rightarrow> bool" where
  "isCustom (FromCustom v) = True"
| "isCustom (FromArticle a) = False"

fun voucherCode :: "displayVoucher \<Rightarrow> string option" where
  "voucherCode (FromCustom v) = Some (c_code v)"
| "voucherCode (FromArticle a) = a_couponCode a"

text \<open>\<^verbatim>\<open>x.merchantName?.toLowerCase().includes(s)\<close>: a missing name makes the test falsy.\<close>

definition merchantIncludes :: "string option \<Rightarrow> string \<Rightarrow> bool" where
  "merchantIncludes m s = (case m of None \<Rightarrow> False | Some n \<Rightarrow> includesStr (toLowerCase n) s)"

subsection \<open>The detail-fetching page\<close>

definition excludedCodes :: "string list" where
  "excludedCodes = [''NoCodeRequired'', ''NoCouponRequired'']"

definition filteredDiscountArticles :: "world \<Rightarrow> DiscountArticle list" where
  "filteredDiscountArticles w =
     filter (\<lambda>article.
               orElse (a_couponCode article) [] \<notin> set excludedCodes
             \<and> orElse (Some (a_id article)) [] \<notin> set (hiddenVouchers w))
            (discountArticles w)"

definition combinedVouchers :: "world \<Rightarrow> displayVoucher list" where
  "combinedVouchers w =
     map FromCustom
       (filter (\<lambda>voucher.
                  if merchantIncludes (c_merchantName voucher) ''grabfood''
                     \<or> merchantIncludes (c_merchantName voucher) ''grab''
                  then \<not> categoryHidden (hiddenCategories w) ''grabfood''
                  else if merchantIncludes (c_merchantName voucher) ''foodpanda''
                  then \<not> categoryHidden (hiddenCategories w) ''foodpanda''
                  else True)
               (customVouchers w))
     @ map FromArticle
       (filter (\<lambda>article.
                  if merchantIncludes (a_merchantName article) ''grabfood''
                     \<or> merchantIncludes (a_merchantName article) ''grab''
                  then \<not> categoryHidden (hiddenCategories w) ''grabfood''
                  else if merchantIncludes (a_merchantName article) ''foodpanda''
                  then \<not> categoryHidden (hiddenCategories w) ''foodpanda''
                  else True)
               (filteredDiscountArticles w))"

subsection \<open>The list-only page\<close>

text \<open>
  The second page component keeps its hidden vouchers as a list of codes and has no cache
  and no list of excluded codes. Its definitions carry the suffix \<open>_A\<close>. Its records have
  no \<^verbatim>\<open>cta\<close> field; that field of the shared records is not used here.
\<close>

definition filteredDiscountArticles_A :: "world \<Rightarrow> DiscountArticle list" where
  "filteredDiscountArticles_A w =
     filter (\<lambda>article. orElse (a_couponCode article) [] \<notin> set (hiddenVouchers w))
            (discountArticles w)"

definition combinedVouchers_A :: "world \<Rightarrow> displayVoucher list" where
  "combinedVouchers_A w =
     map FromCustom
       (filter (\<lambda>voucher.
                  if merchantIncludes (c_merchantName voucher) ''grabfood''
                  then \<not> categoryHidden (hiddenCategories w) ''grabfood''
                  else if merchantIncludes (c_merchantName voucher) ''foodpanda''
                  then \<not> categoryHidden (hiddenCategories w) ''foodpanda''
                  else True)
               (customVouchers w))
     @ map FromArticle
       (filter (\<lambda>article.
                  if merchantIncludes (a_merchantName article) ''grabfood''
                  then \<not> categoryHidden (hiddenCategories w) ''grabfood''
                  else if merchantIncludes (a_merchantName article) ''foodpanda''
                  then \<not> categoryHidden (hiddenCategories w) ''foodpanda''
                  else True)
               (filteredDiscountArticles_A w))"

text \<open>
  The template renders the code button of an element only under
  \<^verbatim>\<open>{#if voucher.voucherCode}\<close>; these are the codes a list shows as actionable.
\<close>

definition actionableCodes :: "displayVoucher list \<Rightarrow> string list" where
  "actionableCodes vs = map (\<lambda>v. orElse (voucherCode v) []) (filter (\<lambda>v. truthy (voucherCode v)) vs)"

subsection \<open>The aggregation rule in the words of the specification\<close>

text \<open>
  Merchant-to-category inference: a case-insensitive substring match on the merchant
  name; an unmatched merchant belongs to no category.
\<close>

definition inferCategory :: "string option \<Rightarrow> string option" where
  "inferCategory m =
     (if merchantIncludes m ''grabfood'' \<or> merchantIncludes m ''grab'' then Some ''grabfood''
      else if merchantIncludes m ''foodpanda'' then Some ''foodpanda''
      else None)"

definition inferCategory_A :: "string option \<Rightarrow> string option" where
  "inferCategory_A m =
     (if merchantIncludes m ''grabfood'' then Some ''grabfood''
      else if merchantIncludes m ''foodpanda'' then Some ''foodpanda''
      else None)"

definition categoryVisible :: "(string \<times> bool) list \<Rightarrow> string option \<Rightarrow> bool" where
  "categoryVisible hc category =
     (case category of None \<Rightarrow> True | Some c \<Rightarrow> \<not> categoryHidden hc c)"

text \<open>
  The display list as the claim words it: both sublists filtered by the hidden state and by
  the category overlay, custom vouchers first. The hidden state of the detail-fetching page
  is a list of ids, that of the list-only page a list of codes.
\<close>

definition combinedAsClaimed :: "world \<Rightarrow> displayVoucher list" where
  "combinedAsClaimed w =
     map FromCustom
       (filter (\<lambda>v. c_id v \<notin> set (hiddenVouchers w)
                   \<and> categoryVisible (hiddenCategories w) (inferCategory (c_merchantName v)))
               (customVouchers w))
     @ map FromArticle
       (filter (\<lambda>a. a_id a \<notin> set (hiddenVouchers w)
                   \<and> categoryVisible (hiddenCategories w) (inferCategory (a_merchantName a)))
               (discountArticles w))"

definition combinedAsClaimed_A :: "world \<Rightarrow> displayVoucher list" where
  "combinedAsClaimed_A w =
     map FromCustom
       (filter (\<lambda>v. c_code v \<notin> set (hiddenVouchers w)
                   \<and> categoryVisible (hiddenCategories w) (inferCategory_A (c_merchantName v)))
               (customVouchers w))
     @ map FromArticle
       (filter (\<lambda>a. orElse (a_couponCode a) [] \<notin> set (hiddenVouchers w)
                   \<and> categoryVisible (hiddenCategories w) (inferCategory_A (a_merchantName a)))
               (discountArticles w))"

text \<open>A code is hidden on the list-only page, then added again as a custom voucher.\<close>

definition rehiddenWorld :: world where
  "rehiddenWorld =
     emptyWorld\<lparr>hiddenVouchers := [''SAVE10''],
                customVouchers :=
                  [\<lparr>c_id = ''1730000000000'', c_code = ''SAVE10'',
                    c_description = ''Custom voucher'', c_cta = ''Use this code'',
                    c_merchantName = Some ''GrabFood''\<rparr>],
                discountArticles :=
                  [\<lparr>a_id = ''voucher-grabfood-0'', a_dataType = ''code'',
                    a_title = Some ''Ten percent off'', a_content = Some ''No description found'',
                    a_couponCode = Some ''SAVE10'', a_cta = None, a_headline = None,
                    a_description = None, a_merchantName = Some ''GrabFood''\<rparr>,
                   \<lparr>a_id = ''voucher-foodpanda-0'', a_dataType = ''code'',
                    a_title = Some ''Free delivery'', a_content = Some ''No description found'',
                    a_couponCode = Some ''PANDA5'', a_cta = None, a_headline = None,
                    a_description = None, a_merchantName = Some ''FoodPanda''\<rparr>]\<rparr>"

section \<open>The network\<close>

text \<open>
  A request through the relay either rejects (\<open>NetworkError\<close>, with the message of the error)
  or yields a response with a status and a body; reading the body (\<^verbatim>\<open>text()\<close>,
  \<^verbatim>\<open>json()\<close>) may reject as well (\<open>Inl\<close>, with the message). The answer may depend on the
  position of the request in the trace, so repeated requests need not agree.
\<close>

datatype 'a response =
  NetworkError string
| Response nat "string + 'a"

type_synonym 'a network = "nat \<Rightarrow> string \<Rightarrow> 'a response"

definition ok :: "nat \<Rightarrow> bool" where
  "ok status = (200 \<le> status \<and> status \<le> 299)"

section \<open>Detail fetch\<close>

text \<open>
  The decoded body of the per-article endpoint. A property read from it is missing, null,
  or a text; \<open>code\<close> may also be some other truthy value, on which \<^verbatim>\<open>.replace\<close> is not a
  function. \<open>o_cta\<close> and \<open>o_merchant\<close> are \<open>None\<close> when the sub-object is missing or null.
\<close>

datatype jsText =
  Missing
| JNull
| Text string

datatype jsCode =
  CodeText jsText
| CodeOther

record offerFields =
  o_code :: jsCode
  o_cta :: "(jsText \<times> jsText) option"
  o_headline :: jsText
  o_title :: jsText
  o_description :: jsText
  o_content :: jsText
  o_merchant :: "jsText option"

datatype offerJson =
  JsonNull
| Offer offerFields

text \<open>A property inside a template literal.\<close>

fun templateText :: "jsText \<Rightarrow> string" where
  "templateText Missing = ''undefined''"
| "templateText JNull = ''null''"
| "templateText (Text s) = s"

fun textOption :: "jsText \<Rightarrow> string option" where
  "textOption Missing = None"
| "textOption JNull = None"
| "textOption (Text s) = Some s"

text \<open>
  The statements of \<^verbatim>\<open>fetchVoucherCode\<close> from the decoded body to the result; \<open>Inl\<close> is a
  thrown \<^verbatim>\<open>TypeError\<close>: a property read on \<^verbatim>\<open>null\<close> or on a missing \<^verbatim>\<open>cta\<close>, or
  \<^verbatim>\<open>.replace\<close> called on a code that is not a text.
\<close>

fun decodeOffer :: "offerJson \<Rightarrow> string + VoucherData" where
  "decodeOffer JsonNull = Inl ''TypeError''"
| "decodeOffer (Offer d) =
     (case o_cta d of
        None \<Rightarrow> Inl ''TypeError''
      | Some (heading, val) \<Rightarrow>
          (let combinedCta = trim (templateText heading @ '' '' @ templateText val);
               result = \<lparr>code = None,
                         cta = Some combinedCta,
                         headline = Some (orElse (textOption (o_headline d))
                                            (orElse (textOption (o_title d))
                                               ''No headline available'')),
                         description = Some (orElse (textOption (o_description d))
                                               (orElse (textOption (o_content d))
                                                  ''No description available'')),
                         merchantName = Some (orElse (case o_merchant d of
                                                         None \<Rightarrow> None
                                                       | Some n \<Rightarrow> textOption n)
                                                ''Unknown merchant'')\<rparr>
           in case o_code d of
                CodeOther \<Rightarrow> Inl ''TypeError''
              | CodeText c \<Rightarrow>
                  if truthy (textOption c)
                  then (let cleanCode = stripNonAlphaNumeric (templateText c)
                        in if \<not> shouldExcludeCode cleanCode
                           then Inr (result\<lparr>code := Some cleanCode\<rparr>)
                           else Inr result)
                  else Inr result))"

text \<open>
  The \<^verbatim>\<open>try\<close> block of \<^verbatim>\<open>fetchVoucherCode\<close>: \<open>Inl\<close> is an exception raised inside it,
  \<open>Inr\<close> the value it returns.
\<close>

definition fetchVoucherCodeTry ::
  "clock \<Rightarrow> offerJson network \<Rightarrow> string \<Rightarrow> world
     \<Rightarrow> (string + VoucherData option) \<times> world" where
  "fetchVoucherCodeTry clk details articleId w =
     (let w1 = w\<lparr>trace := trace w @ [DetailRequest articleId]\<rparr>
      in case details (length (trace w)) articleId of
           NetworkError msg \<Rightarrow> (Inl msg, w1)
         | Response status body \<Rightarrow>
             if \<not> ok status then (Inr None, w1)
             else (case body of
                     Inl msg \<Rightarrow> (Inl msg, w1)
                   | Inr dat \<Rightarrow>
                       (case decodeOffer dat of
                          Inl msg \<Rightarrow> (Inl msg, w1)
                        | Inr result \<Rightarrow>
                            (Inr (Some result),
                             setCachedVoucherData clk articleId result w1))))"

definition fetchVoucherCode ::
  "clock \<Rightarrow> offerJson network \<Rightarrow> string \<Rightarrow> world \<Rightarrow> VoucherData option \<times> world" where
  "fetchVoucherCode clk details articleId w =
     (case getCachedVoucherData clk articleId w of
        (Some cachedData, w1) \<Rightarrow> (Some cachedData, w1)
      | (None, w1) \<Rightarrow>
          (case fetchVoucherCodeTry clk details articleId w1 of
             (Inl err, w2) \<Rightarrow> (None, w2)
           | (Inr r, w2) \<Rightarrow> (r, w2)))"

text \<open>A successful answer that carries nothing but the call to action.\<close>

definition sparseOffer :: offerJson where
  "sparseOffer =
     Offer \<lparr>o_code = CodeText Missing, o_cta = Some (Text ''Get'', Text ''10% off''),
            o_headline = Missing, o_title = Missing, o_description = Missing,
            o_content = Missing, o_merchant = None\<rparr>"

section \<open>Refresh of the detail-fetching page\<close>

text \<open>
  A list page is represented by its \<^verbatim>\<open>article\<close> elements in document order, each with the
  attributes and the texts the extraction reads (the text of the first element matching a
  selector, \<open>None\<close> when nothing matches).
\<close>

record ArticleElement =
  attr_id :: "string option"
  attr_dataType :: "string option"
  titleText :: "string option"
  contentText :: "string option"
  ctaText :: "string option"

definition targetUrls :: "string list" where
  "targetUrls = [''https://www.philstar.com/coupons/grabfood'',
                 ''https://www.philstar.com/coupons/foodpanda'']"

definition querySelectorAll_code :: "ArticleElement list \<Rightarrow> ArticleElement list" where
  "querySelectorAll_code doc = filter (\<lambda>el. attr_dataType el = Some ''code'') doc"

text \<open>The callback of \<^verbatim>\<open>discountElements.forEach\<close>: \<open>Some\<close> is the article it pushes.\<close>

definition extractArticle :: "ArticleElement \<Rightarrow> DiscountArticle option" where
  "extractArticle article =
     (let rawId = orElse (attr_id article) [];
          ident = stripNonAlphaNumeric rawId;
          dataType = orElse (attr_dataType article) []
      in if ident \<noteq> [] \<and> dataType = ''code''
         then Some \<lparr>a_id = ident, a_dataType = dataType,
                    a_title = Some (orElse (map_option trim (titleText article))
                                      ''No title found''),
                    a_content = Some (orElse (map_option trim (contentText article))
                                        ''No description found''),
                    a_couponCode = None,
                    a_cta = Some (orElse (map_option trim (ctaText article)) ''View Offer''),
                    a_headline = None, a_description = None, a_merchantName = None\<rparr>
         else None)"

text \<open>
  The loop over the target URLs. \<open>Inl\<close> is an exception that leaves the loop (a rejected
  request or body), to be caught by the caller.
\<close>

fun fetchPages ::
  "ArticleElement list network \<Rightarrow> string list \<Rightarrow> DiscountArticle list \<Rightarrow> world
     \<Rightarrow> (string + DiscountArticle list) \<times> world" where
  "fetchPages pages [] extracted w = (Inr extracted, w)"
| "fetchPages pages (targetUrl # rest) extracted w =
     (let w1 = w\<lparr>trace := trace w @ [PageRequest targetUrl]\<rparr>
      in case pages (length (trace w)) targetUrl of
           NetworkError msg \<Rightarrow> (Inl msg, w1)
         | Response status body \<Rightarrow>
             if \<not> ok status then fetchPages pages rest extracted w1
             else (case body of
                     Inl msg \<Rightarrow> (Inl msg, w1)
                   | Inr doc \<Rightarrow>
                       fetchPages pages rest
                         (extracted @ List.map_filter extractArticle (querySelectorAll_code doc))
                         w1))"

text \<open>
  The five assignments to \<^verbatim>\<open>discountArticles[i]\<close>; on an index without an element the
  first assignment throws.
\<close>

definition spliceVoucherData :: "nat \<Rightarrow> VoucherData \<Rightarrow> world \<Rightarrow> string option \<times> world" where
  "spliceVoucherData i vd w =
     (if i < length (discountArticles w)
      then (None,
            w\<lparr>discountArticles :=
                (discountArticles w)
                  [i := (discountArticles w ! i)
                          \<lparr>a_couponCode := code vd, a_cta := cta vd,
                           a_headline := headline vd, a_description := description vd,
                           a_merchantName := merchantName vd\<rparr>]\<rparr>)
      else (Some ''TypeError'', w))"

text \<open>The body of the detail loop for the article at index \<open>i\<close>.\<close>

definition resolveArticle ::
  "clock \<Rightarrow> offerJson network \<Rightarrow> nat \<Rightarrow> DiscountArticle \<Rightarrow> world
     \<Rightarrow> string option \<times> world" where
  "resolveArticle clk details i article w =
     (case getCachedVoucherData clk (a_id article) w of
        (Some cachedData, w1) \<Rightarrow>
          if truthy (code cachedData) then spliceVoucherData i cachedData w1 else (None, w1)
      | (None, w1) \<Rightarrow>
          (case fetchVoucherCode clk details (a_id article) w1 of
             (voucherData, w2) \<Rightarrow>
               (case (case voucherData of
                        None \<Rightarrow> (None, w2)
                      | Some vd \<Rightarrow>
                          if truthy (code vd) then spliceVoucherData i vd w2 else (None, w2)) of
                  (Some err, w3) \<Rightarrow> (Some err, w3)
                | (None, w3) \<Rightarrow> (None, w3\<lparr>trace := trace w3 @ [Delay 500]\<rparr>))))"

fun resolveDetails ::
  "clock \<Rightarrow> offerJson network \<Rightarrow> (nat \<times> DiscountArticle) list \<Rightarrow> world
     \<Rightarrow> string option \<times> world" where
  "resolveDetails clk details [] w = (None, w)"
| "resolveDetails clk details ((i, article) # rest) w =
     (case resolveArticle clk details i article w of
        (Some err, w1) \<Rightarrow> (Some err, w1)
      | (None, w1) \<Rightarrow> resolveDetails clk details rest w1)"

definition fetchGrabFoodVouchers ::
  "clock \<Rightarrow> ArticleElement list network \<Rightarrow> offerJson network \<Rightarrow> world \<Rightarrow> world" where
  "fetchGrabFoodVouchers clk pages details w =
     (let w0 = w\<lparr>isLoading := True, error := None\<rparr>
      in case fetchPages pages targetUrls [] w0 of
           (Inl msg, w1) \<Rightarrow> w1\<lparr>error := Some msg, isLoading := False\<rparr>
         | (Inr extractedArticles, w1) \<Rightarrow>
             (let w2 = w1\<lparr>discountArticles := extractedArticles,
                          articleIds := map a_id extractedArticles,
                          voucherCodes := []\<rparr>
              in case resolveDetails clk details (enumerate 0 extractedArticles) w2 of
                   (Some msg, w3) \<Rightarrow> w3\<lparr>error := Some msg, isLoading := False\<rparr>
                 | (None, w3) \<Rightarrow> w3\<lparr>isLoading := False\<rparr>))"

definition forceRefresh ::
  "clock \<Rightarrow> ArticleElement list network \<Rightarrow> offerJson network \<Rightarrow> world \<Rightarrow> world" where
  "forceRefresh clk pages details w =
     fetchGrabFoodVouchers clk pages details (resetCategoryVisibility (clearVoucherCache w))"

section \<open>Refresh of the list-only page\<close>

text \<open>
  A list page is represented by its elements in document order. \<open>titleSource\<close> is the text
  of the element the title is read from (the first heading of the container, else the
  element itself); \<open>contentSource\<close> is the text of the first description match, if any.
\<close>

record ClipElement =
  attr_clipboardText :: "string option"
  titleSource :: string
  contentSource :: "string option"

definition targetUrls_A :: "string list" where
  "targetUrls_A = [''https://iprice.ph/?s=grabfood'', ''https://iprice.ph/?s=foodpanda'']"

definition HIDDEN_VOUCHERS_KEY_A :: string where
  "HIDDEN_VOUCHERS_KEY_A = ''hidden-vouchers''"

fun showNat :: "nat \<Rightarrow> string" where
  "showNat n = (if n < 10 then [digitChars ! n]
                else showNat (n div 10) @ [digitChars ! (n mod 10)])"

declare showNat.simps [simp del]

definition querySelectorAll_clipboard :: "ClipElement list \<Rightarrow> ClipElement list" where
  "querySelectorAll_clipboard doc = filter (\<lambda>el. attr_clipboardText el \<noteq> None) doc"

text \<open>The callback of \<^verbatim>\<open>voucherElements.forEach\<close>: \<open>Some\<close> is the article it pushes.\<close>

definition extractVoucher_A :: "string \<Rightarrow> nat \<Rightarrow> ClipElement \<Rightarrow> DiscountArticle option" where
  "extractVoucher_A targetUrl index element =
     (let voucherCode = orElse (attr_clipboardText element) []
      in if voucherCode \<noteq> []
         then Some \<lparr>a_id = ''voucher-''
                           @ (if includesStr targetUrl ''grabfood''
                              then ''grabfood'' else ''foodpanda'')
                           @ ''-'' @ showNat index,
                    a_dataType = ''code'',
                    a_title = Some (orElse (Some (trim (titleSource element)))
                                      ''No title found''),
                    a_content = Some (orElse (map_option trim (contentSource element))
                                        ''No description found''),
                    a_couponCode = Some voucherCode,
                    a_cta = None, a_headline = None, a_description = None,
                    a_merchantName = Some (if includesStr targetUrl ''grabfood''
                                           then ''GrabFood'' else ''FoodPanda'')\<rparr>
         else None)"

definition extractPage_A :: "string \<Rightarrow> ClipElement list \<Rightarrow> DiscountArticle list" where
  "extractPage_A targetUrl doc =
     List.map_filter (\<lambda>(index, element). extractVoucher_A targetUrl index element)
       (enumerate 0 (querySelectorAll_clipboard doc))"

fun fetchPages_A ::
  "clock \<Rightarrow> ClipElement list network \<Rightarrow> bool \<Rightarrow> string list \<Rightarrow> DiscountArticle list \<Rightarrow> world
     \<Rightarrow> (string + DiscountArticle list) \<times> world" where
  "fetchPages_A clk pages hardRefresh [] extracted w = (Inr extracted, w)"
| "fetchPages_A clk pages hardRefresh (targetUrl # rest) extracted w =
     (case (if hardRefresh
            then (case Date_now clk w of (now, w') \<Rightarrow>
                    w'\<lparr>trace := trace w' @ [PageRequestNoCache targetUrl now]\<rparr>)
            else w\<lparr>trace := trace w @ [PageRequest targetUrl]\<rparr>) of w1 \<Rightarrow>
        (case pages (length (trace w)) targetUrl of
           NetworkError msg \<Rightarrow> (Inl msg, w1)
         | Response status body \<Rightarrow>
             if \<not> ok status then fetchPages_A clk pages hardRefresh rest extracted w1
             else (case body of
                     Inl msg \<Rightarrow> (Inl msg, w1)
                   | Inr doc \<Rightarrow>
                       fetchPages_A clk pages hardRefresh rest
                         (extracted @ extractPage_A targetUrl doc) w1)))"

definition fetchGrabFoodVouchers_A ::
  "clock \<Rightarrow> ClipElement list network \<Rightarrow> bool \<Rightarrow> world \<Rightarrow> world" where
  "fetchGrabFoodVouchers_A clk pages hardRefresh w =
     (let w0 = w\<lparr>isLoading := True, error := None\<rparr>;
          w1 = (if hardRefresh
                then w0\<lparr>hiddenVouchers := [],
                        localStorage := removeItem (localStorage w0) HIDDEN_VOUCHERS_KEY_A\<rparr>
                else w0)
      in case fetchPages_A clk pages hardRefresh targetUrls_A [] w1 of
           (Inl msg, w2) \<Rightarrow> w2\<lparr>error := Some msg, isLoading := False\<rparr>
         | (Inr extractedArticles, w2) \<Rightarrow>
             w2\<lparr>discountArticles := extractedArticles, isLoading := False\<rparr>)"

section \<open>The three-code scenario\<close>

text \<open>
  A list page with exactly three elements carrying the code attribute, with the values
  \<open>SAVE10\<close>, the empty text and \<open>NoCodeRequired\<close>.
\<close>

definition scenarioDoc_A :: "ClipElement list" where
  "scenarioDoc_A =
     [\<lparr>attr_clipboardText = Some ''SAVE10'', titleSource = ''Ten percent off'',
       contentSource = Some ''On all orders''\<rparr>,
      \<lparr>attr_clipboardText = Some [], titleSource = ''Free delivery'',
       contentSource = None\<rparr>,
      \<lparr>attr_clipboardText = Some ''NoCodeRequired'', titleSource = ''Weekend deal'',
       contentSource = Some ''Applied at checkout''\<rparr>]"

text \<open>The first target answers with that page, the second with status 404.\<close>

definition scenarioPages_A :: "ClipElement list network" where
  "scenarioPages_A n url =
     (if url = ''https://iprice.ph/?s=grabfood'' then Response 200 (Inr scenarioDoc_A)
      else Response 404 (Inr []))"

text \<open>
  The same three codes on the detail-fetching page: three articles on the first list page,
  and a detail endpoint that answers with the three codes.
\<close>

definition scenarioDoc :: "ArticleElement list" where
  "scenarioDoc =
     [\<lparr>attr_id = Some ''offer:101'', attr_dataType = Some ''code'',
       titleText = Some ''Ten percent off'', contentText = None, ctaText = None\<rparr>,
      \<lparr>attr_id = Some ''offer:102'', attr_dataType = Some ''code'',
       titleText = Some ''Free delivery'', contentText = None, ctaText = None\<rparr>,
      \<lparr>attr_id = Some ''offer:103'', attr_dataType = Some ''code'',
       titleText = Some ''Weekend deal'', contentText = None, ctaText = None\<rparr>]"

definition scenarioPages :: "ArticleElement list network" where
  "scenarioPages n url =
     (if url = ''https://www.philstar.com/coupons/grabfood'' then Response 200 (Inr scenarioDoc)
      else Response 404 (Inr []))"

definition scenarioOffer :: "jsText \<Rightarrow> offerJson" where
  "scenarioOffer c =
     Offer \<lparr>o_code = CodeText c, o_cta = Some (Text ''Get'', Text ''10% off''),
            o_headline = Text ''Deal'', o_title = Missing, o_description = Missing,
            o_content = Text ''Details'', o_merchant = Some (Text ''GrabFood'')\<rparr>"

definition scenarioDetails :: "offerJson network" where
  "scenarioDetails n articleId =
     (if articleId = ''offer101'' then Response 200 (Inr (scenarioOffer (Text ''SAVE10'')))
      else if articleId = ''offer102'' then Response 200 (Inr (scenarioOffer (Text [])))
      else Response 200 (Inr (scenarioOffer (Text ''NoCodeRequired''))))"

section \<open>Shape of the effects of the detail loop\<close>

text \<open>
  A sequence of effects in which every delay directly follows a detail request: pairs of a
  request and its delay, possibly ended by one request whose iteration threw.
\<close>

fun throttled :: "event list \<Rightarrow> bool" where
  "throttled [] = True"
| "throttled [DetailRequest i] = True"
| "throttled (DetailRequest i # Delay n # rest) = throttled rest"
| "throttled (e # rest) = False"

text \<open>An extracted article with the id of the entry held by \<open>staleWorld\<close>.\<close>

definition sampleArticle :: DiscountArticle where
  "sampleArticle =
     \<lparr>a_id = ''a1'', a_dataType = ''code'', a_title = Some ''Lunch deal'',
      a_content = Some ''No description found'', a_couponCode = None,
      a_cta = Some ''View Offer'', a_headline = None, a_description = None,
      a_merchantName = None\<rparr>"

section \<open>The forced-refresh scenario\<close>

text \<open>No entry of the store carries a set hidden flag.\<close>

definition noneHidden :: "world \<Rightarrow> bool" where
  "noneHidden w = (\<forall>articleId e. storedEntry w articleId = Some e \<longrightarrow> hidden e = Some False)"

definition cacheKeys :: "world \<Rightarrow> string list" where
  "cacheKeys w = filter (\<lambda>k. startsWith k CACHE_KEY) (keys (localStorage w))"

definition cachedEntry :: "string \<Rightarrow> bool \<Rightarrow> string \<times> stored" where
  "cachedEntry articleId h =
     (cacheKey articleId,
      CacheJson \<lparr>code = Some ''SAVE10'', cta = None, headline = None, description = None,
                 merchantName = Some ''GrabFood'', expire = 1000, hidden = Some h\<rparr>)"

text \<open>
  Five cache entries, three of them hidden, the category map \<open>{grabfood: true}\<close>, and the
  stored custom vouchers.
\<close>

definition fiveEntryWorld :: world where
  "fiveEntryWorld =
     emptyWorld
       \<lparr>localStorage :=
          [(''grabfood-custom-vouchers'', OtherText ''[]''),
           cachedEntry ''c1'' True, cachedEntry ''c2'' False, cachedEntry ''c3'' True,
           (CATEGORY_VISIBILITY_KEY, CategoryJson [(''grabfood'', True)]),
           cachedEntry ''c4'' False, cachedEntry ''c5'' True],
        hiddenVouchers := [''c1'', ''c3'', ''c5''],
        hiddenCategories := [(''grabfood'', True)]\<rparr>"

section \<open>Effects of a whole refresh\<close>

text \<open>
  The effects the detail loop adds, article by article: nothing where the entry of the
  article is fresh when its turn comes, one request and the delay otherwise.
\<close>

fun loopEffects ::
  "clock \<Rightarrow> offerJson network \<Rightarrow> (nat \<times> DiscountArticle) list \<Rightarrow> world \<Rightarrow> event list" where
  "loopEffects clk details [] w = []"
| "loopEffects clk details ((i, article) # rest) w =
     (if freshAt clk (a_id article) w then []
      else [DetailRequest (a_id article), Delay 500])
     @ loopEffects clk details rest (snd (resolveArticle clk details i article w))"

text \<open>A list-page request that carries the cache-busting time stamp.\<close>

fun cacheBusting :: "event \<Rightarrow> bool" where
  "cacheBusting (PageRequestNoCache u t) = True"
| "cacheBusting (PageRequest u) = False"
| "cacheBusting (DetailRequest k) = False"
| "cacheBusting (Delay n) = False"

text \<open>
  A store with an unexpired entry for article \<open>a1\<close> whose code is \<^verbatim>\<open>null\<close> and whose other
  fields are set, and the extracted article with that id.
\<close>

definition nullCodeWorld :: world where
  "nullCodeWorld =
     emptyWorld
       \<lparr>localStorage :=
          [(cacheKey ''a1'',
            CacheJson \<lparr>code = None, cta = Some ''Get 10% off'', headline = Some ''Deal'',
                       description = Some ''Details'', merchantName = Some ''GrabFood'',
                       expire = 100, hidden = Some False\<rparr>)],
        discountArticles := [sampleArticle]\<rparr>"

section \<open>The store\<close>

lemma startsWith_cacheKey: "startsWith (cacheKey articleId) CACHE_KEY"
  by (simp add: startsWith_def cacheKey_def)

lemma cacheKey_inj: "cacheKey a = cacheKey b \<longleftrightarrow> a = b"
  by (simp add: cacheKey_def)

lemma getItem_removeItem:
  "getItem (removeItem ls k) k' = (if k' = k then None else getItem ls k')"
  by (simp add: getItem_def removeItem_def delete_conv')

lemma getItem_setItem:
  "getItem (setItem ls k v) k' = (if k' = k then Some v else getItem ls k')"
  by (simp add: getItem_def setItem_def update_conv')

lemma wellFormed_slot:
  assumes "cacheWellFormed ls" and "getItem ls (cacheKey articleId) = Some cached"
  shows "parseCache cached \<noteq> None"
proof -
  from assms(2) have "(cacheKey articleId, cached) \<in> set ls"
    by (simp add: getItem_def map_of_SomeD)
  with assms(1) show ?thesis
    by (auto simp: cacheWellFormed_def list_all_iff startsWith_cacheKey)
qed

lemma storedEntry_None_iff:
  "cacheWellFormed (localStorage w) \<Longrightarrow>
     storedEntry w articleId = None \<longleftrightarrow> getItem (localStorage w) (cacheKey articleId) = None"
  by (auto simp: storedEntry_def dest: wellFormed_slot split: option.splits)

section \<open>Reading the cache\<close>

text \<open>Both readers, as a function of the entry the store holds and of the clock reading.\<close>

lemma getCachedVoucherDataFull_eq:
  "getCachedVoucherDataFull clk articleId w =
     (case storedEntry w articleId of
        None \<Rightarrow> (None, w)
      | Some e \<Rightarrow>
          if clk (tick w) > expire e
          then (None, w\<lparr>tick := Suc (tick w),
                        localStorage := removeItem (localStorage w) (cacheKey articleId)\<rparr>)
          else (Some e, w\<lparr>tick := Suc (tick w)\<rparr>))"
  by (simp add: getCachedVoucherDataFull_def storedEntry_def Date_now_def split: option.splits)

lemma getCachedVoucherData_eq:
  "getCachedVoucherData clk articleId w =
     (case storedEntry w articleId of
        None \<Rightarrow> (None, w)
      | Some e \<Rightarrow>
          if clk (tick w) > expire e
          then (None, w\<lparr>tick := Suc (tick w),
                        localStorage := removeItem (localStorage w) (cacheKey articleId)\<rparr>)
          else (Some (VoucherData.truncate e), w\<lparr>tick := Suc (tick w)\<rparr>))"
  by (simp add: getCachedVoucherData_def storedEntry_def Date_now_def
        VoucherData.truncate_def split: option.splits)

text \<open>
  C1. On a store whose cache namespace holds only serialised entries, each of the two
  readers returns \<^verbatim>\<open>null\<close> exactly when the store holds nothing under the id's key or the
  clock reading of the call is greater than the entry's \<open>expire\<close>; in the second case the key
  is gone from the store after the call.
\<close>

theorem cache_read_absent_iff:
  assumes "cacheWellFormed (localStorage w)"
  shows "(fst (getCachedVoucherData clk articleId w) = None \<longleftrightarrow>
            (getItem (localStorage w) (cacheKey articleId) = None \<or>
             (\<exists>e. storedEntry w articleId = Some e \<and> clk (tick w) > expire e)))
       \<and> (fst (getCachedVoucherDataFull clk articleId w) = None \<longleftrightarrow>
            (getItem (localStorage w) (cacheKey articleId) = None \<or>
             (\<exists>e. storedEntry w articleId = Some e \<and> clk (tick w) > expire e)))
       \<and> (\<forall>e. storedEntry w articleId = Some e \<and> clk (tick w) > expire e \<longrightarrow>
             getItem (localStorage (snd (getCachedVoucherData clk articleId w)))
                     (cacheKey articleId) = None
           \<and> getItem (localStorage (snd (getCachedVoucherDataFull clk articleId w)))
                     (cacheKey articleId) = None)"
  using storedEntry_None_iff[OF assms, of articleId]
  by (auto simp: getCachedVoucherDataFull_eq getCachedVoucherData_eq getItem_removeItem
           split: option.splits)

theorem cache_read_absent_iff_witness:
  "cacheWellFormed (localStorage staleWorld)
   \<and> expire (the (storedEntry staleWorld ''a1'')) < 200
   \<and> fst (getCachedVoucherData (\<lambda>n. 200) ''a1'' staleWorld) = None
   \<and> getItem (localStorage (snd (getCachedVoucherData (\<lambda>n. 200) ''a1'' staleWorld)))
              (cacheKey ''a1'') = None
   \<and> fst (getCachedVoucherData (\<lambda>n. 100) ''a1'' staleWorld) \<noteq> None"
proof -
  have wf: "cacheWellFormed (localStorage staleWorld)"
    by (simp add: cacheWellFormed_def staleWorld_def emptyWorld_def)
  have se: "storedEntry staleWorld ''a1'' =
              Some \<lparr>code = Some ''OLD5'', cta = None, headline = None, description = None,
                    merchantName = Some ''FoodPanda'', expire = 100, hidden = Some True\<rparr>"
    by (simp add: storedEntry_def staleWorld_def emptyWorld_def getItem_def)
  have nn: "getItem (localStorage staleWorld) (cacheKey ''a1'') \<noteq> None"
    by (simp add: staleWorld_def emptyWorld_def getItem_def)
  show ?thesis
    using wf se nn
      cache_read_absent_iff[OF wf, of "\<lambda>n. 200" "''a1''"]
      cache_read_absent_iff[OF wf, of "\<lambda>n. 100" "''a1''"]
    by simp
qed

section \<open>Writing the cache\<close>

lemma storedEntry_tick [simp]: "storedEntry (w\<lparr>tick := t\<rparr>) i = storedEntry w i"
  by (simp add: storedEntry_def)

lemma truncate_extend [simp]:
  "VoucherData.truncate (VoucherData.extend (dat::VoucherData) x) = dat"
  by (simp add: VoucherData.truncate_def VoucherData.extend_def)

lemma setCachedVoucherData_eq:
  "setCachedVoucherData clk articleId dat w =
     (case getCachedVoucherDataFull clk articleId w of (existingCache, w1) \<Rightarrow>
        w1\<lparr>tick := Suc (tick w1),
           localStorage := setItem (localStorage w1) (cacheKey articleId)
             (CacheJson (VoucherData.extend dat
                (CachedVoucherData.fields (clk (tick w1) + CACHE_DURATION)
                                          (Some (hiddenOrFalse existingCache)))))\<rparr>)"
  by (simp add: setCachedVoucherData_def Date_now_def VoucherData.extend_def
        CachedVoucherData.fields_def split: prod.splits)

lemma storedEntry_after_write:
  "storedEntry (setCachedVoucherData clk articleId dat w) i =
    (if i = articleId then
       Some (VoucherData.extend dat
                (CachedVoucherData.fields
                   (clk (tick (snd (getCachedVoucherDataFull clk articleId w))) + CACHE_DURATION)
                   (Some (hiddenOrFalse (fst (getCachedVoucherDataFull clk articleId w))))))
     else storedEntry w i)"
  by (auto simp: setCachedVoucherData_eq getCachedVoucherDataFull_eq storedEntry_def
        getItem_setItem getItem_removeItem cacheKey_inj split: prod.splits option.splits)


lemma fields_simps [simp]:
  "expire (VoucherData.extend (dat::VoucherData) (CachedVoucherData.fields x h)) = x"
  "hidden (VoucherData.extend (dat::VoucherData) (CachedVoucherData.fields x h)) = h"
  by (simp_all add: VoucherData.extend_def CachedVoucherData.fields_def)


lemma hideVoucher_eq:
  "hideVoucher clk voucherId w =
     (if voucherId \<in> set (hiddenVouchers w) then w
      else case storedEntry w voucherId of
        None \<Rightarrow>
          w\<lparr>tick := Suc (Suc (tick w)),
            localStorage := setItem (localStorage w) (cacheKey voucherId)
              (CacheJson \<lparr>code = None, cta = None, headline = None, description = None,
                          merchantName = None,
                          expire = clk (Suc (tick w)) + CACHE_DURATION, hidden = Some True\<rparr>),
            hiddenVouchers := hiddenVouchers w @ [voucherId]\<rparr>
      | Some e \<Rightarrow>
          if clk (tick w) > expire e then
            w\<lparr>tick := Suc (Suc (Suc (tick w))),
              localStorage := setItem (removeItem (localStorage w) (cacheKey voucherId))
                (cacheKey voucherId)
                (CacheJson \<lparr>code = None, cta = None, headline = None, description = None,
                            merchantName = None,
                            expire = clk (Suc (Suc (tick w))) + CACHE_DURATION,
                            hidden = Some True\<rparr>),
              hiddenVouchers := hiddenVouchers w @ [voucherId]\<rparr>
          else
            w\<lparr>tick := Suc (Suc (tick w)),
              localStorage := setItem (localStorage w) (cacheKey voucherId)
                (CacheJson (e\<lparr>expire := clk (Suc (tick w)) + CACHE_DURATION,
                              hidden := Some True\<rparr>)),
              hiddenVouchers := hiddenVouchers w @ [voucherId]\<rparr>)"
  by (simp add: hideVoucher_def getCachedVoucherDataFull_eq Date_now_def split: option.splits)

lemma storedEntry_after_hide:
  "storedEntry (hideVoucher clk voucherId w) voucherId =
     (if voucherId \<in> set (hiddenVouchers w) then storedEntry w voucherId
      else case storedEntry w voucherId of
        None \<Rightarrow>
          Some \<lparr>code = None, cta = None, headline = None, description = None,
                merchantName = None,
                expire = clk (Suc (tick w)) + CACHE_DURATION, hidden = Some True\<rparr>
      | Some e \<Rightarrow>
          if clk (tick w) > expire e then
            Some \<lparr>code = None, cta = None, headline = None, description = None,
                  merchantName = None,
                  expire = clk (Suc (Suc (tick w))) + CACHE_DURATION, hidden = Some True\<rparr>
          else Some (e\<lparr>expire := clk (Suc (tick w)) + CACHE_DURATION, hidden := Some True\<rparr>))"
  by (simp add: hideVoucher_eq storedEntry_def getItem_setItem split: option.splits)

lemma tick_after_hide:
  "tick (hideVoucher clk voucherId w) =
     (if voucherId \<in> set (hiddenVouchers w) then tick w
      else case storedEntry w voucherId of
        None \<Rightarrow> Suc (Suc (tick w))
      | Some e \<Rightarrow> if clk (tick w) > expire e then Suc (Suc (Suc (tick w))) else Suc (Suc (tick w)))"
  by (simp add: hideVoucher_eq split: option.splits)

text \<open>
  C10 (amended). On a store whose cache namespace holds only serialised entries, and for an
  id that is not yet in the in-memory hidden list, \<^verbatim>\<open>hideVoucher\<close> leaves an entry with
  \<open>hidden = true\<close> whose \<open>expire\<close> is the last clock reading plus \<open>CACHE_DURATION\<close>, also
  when an unexpired entry existed. The payload fields of an unexpired prior entry are kept;
  without a prior entry, or with an expired one, the entry is the minimal one (\<open>code\<close>
  null, no other field). For an id already in the list nothing changes.
\<close>

theorem hideVoucher_effect:
  assumes "cacheWellFormed (localStorage w)"
  shows "(voucherId \<notin> set (hiddenVouchers w) \<longrightarrow>
      (\<exists>e'. storedEntry (hideVoucher clk voucherId w) voucherId = Some e'
          \<and> hidden e' = Some True
          \<and> expire e' = clk (tick (hideVoucher clk voucherId w) - 1) + CACHE_DURATION
          \<and> (\<forall>e. storedEntry w voucherId = Some e \<and> clk (tick w) \<le> expire e \<longrightarrow>
                 VoucherData.truncate e' = VoucherData.truncate e)
          \<and> (getItem (localStorage w) (cacheKey voucherId) = None
               \<or> (\<exists>e. storedEntry w voucherId = Some e \<and> clk (tick w) > expire e) \<longrightarrow>
                 VoucherData.truncate e' =
                   \<lparr>code = None, cta = None, headline = None, description = None,
                    merchantName = None\<rparr>)))
   \<and> (voucherId \<in> set (hiddenVouchers w) \<longrightarrow> hideVoucher clk voucherId w = w)"
proof (intro conjI impI)
  assume "voucherId \<notin> set (hiddenVouchers w)"
  then show "\<exists>e'. storedEntry (hideVoucher clk voucherId w) voucherId = Some e'
          \<and> hidden e' = Some True
          \<and> expire e' = clk (tick (hideVoucher clk voucherId w) - 1) + CACHE_DURATION
          \<and> (\<forall>e. storedEntry w voucherId = Some e \<and> clk (tick w) \<le> expire e \<longrightarrow>
                 VoucherData.truncate e' = VoucherData.truncate e)
          \<and> (getItem (localStorage w) (cacheKey voucherId) = None
               \<or> (\<exists>e. storedEntry w voucherId = Some e \<and> clk (tick w) > expire e) \<longrightarrow>
                 VoucherData.truncate e' =
                   \<lparr>code = None, cta = None, headline = None, description = None,
                    merchantName = None\<rparr>)"
    using storedEntry_None_iff[OF assms, of voucherId]
    by (auto simp: storedEntry_after_hide tick_after_hide VoucherData.truncate_def
             split: option.splits)
next
  assume "voucherId \<in> set (hiddenVouchers w)"
  then show "hideVoucher clk voucherId w = w"
    by (simp add: hideVoucher_eq)
qed

lemma storedEntry_after_read:
  "storedEntry (snd (getCachedVoucherData clk k w)) i =
     (if i = k \<and> \<not> freshAt clk k w then None else storedEntry w i)"
  by (auto simp: getCachedVoucherData_eq freshAt_def storedEntry_def getItem_removeItem
        cacheKey_inj split: option.splits)


subsection \<open>The cache namespace stays well formed\<close>

lemma wellFormed_setItem:
  "cacheWellFormed ls \<Longrightarrow> (startsWith k CACHE_KEY \<longrightarrow> parseCache v \<noteq> None) \<Longrightarrow>
     cacheWellFormed (setItem ls k v)"
  by (induction ls) (auto simp: cacheWellFormed_def setItem_def)


lemma wellFormed_emptyWorld: "cacheWellFormed (localStorage emptyWorld)"
  by (simp add: cacheWellFormed_def emptyWorld_def)





lemma wellFormed_toggle:
  "cacheWellFormed (localStorage w) \<Longrightarrow>
     cacheWellFormed (localStorage (toggleCategoryVisibility category w))"
  by (simp add: toggleCategoryVisibility_def saveCategoryVisibility_def Let_def
        wellFormed_setItem startsWith_def CACHE_KEY_def CATEGORY_VISIBILITY_KEY_def)









text \<open>
  C10 as stated fails: for an id already in the in-memory hidden list the guard skips the
  body, so no entry is written.
\<close>

theorem hideVoucher_skips_listed_id:
  "storedEntry (hideVoucher (\<lambda>n. 0) ''a1'' (emptyWorld\<lparr>hiddenVouchers := [''a1'']\<rparr>)) ''a1''
     = None"
  by (simp add: hideVoucher_def storedEntry_def emptyWorld_def getItem_def)

subsection \<open>The amended statements at concrete inputs\<close>

lemma storedEntry_staleWorld:
  "storedEntry staleWorld ''a1'' =
     Some \<lparr>code = Some ''OLD5'', cta = None, headline = None, description = None,
           merchantName = Some ''FoodPanda'', expire = 100, hidden = Some True\<rparr>"
  by (simp add: storedEntry_def staleWorld_def emptyWorld_def getItem_def)

lemma wellFormed_staleWorld: "cacheWellFormed (localStorage staleWorld)"
  by (simp add: cacheWellFormed_def staleWorld_def emptyWorld_def)

lemma tick_staleWorld: "tick staleWorld = 0"
  by (simp add: staleWorld_def emptyWorld_def)


theorem hideVoucher_effect_witness:
  "cacheWellFormed (localStorage staleWorld)
   \<and> ''a1'' \<notin> set (hiddenVouchers staleWorld)
   \<and> map_option expire (storedEntry staleWorld ''a1'') = Some 100
   \<and> map_option hidden (storedEntry (hideVoucher (\<lambda>n. 50) ''a1'' staleWorld) ''a1'')
       = Some (Some True)
   \<and> map_option expire (storedEntry (hideVoucher (\<lambda>n. 50) ''a1'' staleWorld) ''a1'')
       = Some (50 + CACHE_DURATION)
   \<and> map_option VoucherData.truncate (storedEntry (hideVoucher (\<lambda>n. 50) ''a1'' staleWorld) ''a1'')
       = Some \<lparr>code = Some ''OLD5'', cta = None, headline = None, description = None,
                merchantName = Some ''FoodPanda''\<rparr>"
proof -
  have nl: "''a1'' \<notin> set (hiddenVouchers staleWorld)"
    by (simp add: staleWorld_def emptyWorld_def)
  with hideVoucher_effect[OF wellFormed_staleWorld, of "''a1''" "\<lambda>n. 50"]
  obtain e' where
    e': "storedEntry (hideVoucher (\<lambda>n. 50) ''a1'' staleWorld) ''a1'' = Some e'"
    and hid: "hidden e' = Some True"
    and ex: "expire e' = 50 + CACHE_DURATION"
    and keep: "\<forall>e. storedEntry staleWorld ''a1'' = Some e \<and> 50 \<le> expire e \<longrightarrow>
                 VoucherData.truncate e' = VoucherData.truncate e"
    by auto
  from keep have "VoucherData.truncate e' =
      \<lparr>code = Some ''OLD5'', cta = None, headline = None, description = None,
       merchantName = Some ''FoodPanda''\<rparr>"
    by (simp add: storedEntry_staleWorld VoucherData.truncate_def)
  with nl e' hid ex wellFormed_staleWorld show ?thesis
    by (simp add: storedEntry_staleWorld)
qed


section \<open>Category visibility\<close>

text \<open>
  C7. After \<^verbatim>\<open>toggleCategoryVisibility\<close> on \<open>grabfood\<close> or \<open>foodpanda\<close>, at most one of the
  two is hidden, whatever the map was before; toggling a built-in category that is shown
  hides it and leaves the other one shown.
\<close>

theorem toggle_builtin_mutual_exclusion:
  "(category = ''grabfood'' \<or> category = ''foodpanda'' \<longrightarrow>
      \<not> (categoryHidden (hiddenCategories (toggleCategoryVisibility category w)) ''grabfood''
         \<and> categoryHidden (hiddenCategories (toggleCategoryVisibility category w)) ''foodpanda''))
   \<and> (\<not> categoryHidden (hiddenCategories w) ''grabfood'' \<longrightarrow>
        categoryHidden (hiddenCategories (toggleCategoryVisibility ''grabfood'' w)) ''grabfood''
      \<and> \<not> categoryHidden (hiddenCategories (toggleCategoryVisibility ''grabfood'' w)) ''foodpanda'')
   \<and> (\<not> categoryHidden (hiddenCategories w) ''foodpanda'' \<longrightarrow>
        categoryHidden (hiddenCategories (toggleCategoryVisibility ''foodpanda'' w)) ''foodpanda''
      \<and> \<not> categoryHidden (hiddenCategories (toggleCategoryVisibility ''foodpanda'' w)) ''grabfood'')"
  by (auto simp: toggleCategoryVisibility_def saveCategoryVisibility_def categoryHidden_def
                 update_conv' Let_def)

theorem toggle_builtin_mutual_exclusion_witness:
  "categoryHidden (hiddenCategories (emptyWorld\<lparr>hiddenCategories := [(''foodpanda'', True)]\<rparr>))
                  ''foodpanda''
   \<and> \<not> categoryHidden (hiddenCategories (emptyWorld\<lparr>hiddenCategories := [(''foodpanda'', True)]\<rparr>))
                      ''grabfood''
   \<and> categoryHidden (hiddenCategories (toggleCategoryVisibility ''grabfood''
         (emptyWorld\<lparr>hiddenCategories := [(''foodpanda'', True)]\<rparr>))) ''grabfood''
   \<and> \<not> categoryHidden (hiddenCategories (toggleCategoryVisibility ''grabfood''
         (emptyWorld\<lparr>hiddenCategories := [(''foodpanda'', True)]\<rparr>))) ''foodpanda''"
proof -
  have pre: "\<not> categoryHidden
               (hiddenCategories (emptyWorld\<lparr>hiddenCategories := [(''foodpanda'', True)]\<rparr>))
               ''grabfood''"
    by (simp add: categoryHidden_def)
  show ?thesis
    using pre toggle_builtin_mutual_exclusion
            [of "''grabfood''" "emptyWorld\<lparr>hiddenCategories := [(''foodpanda'', True)]\<rparr>"]
    by (simp add: categoryHidden_def)
qed

section \<open>Aggregation\<close>

lemma visible_by_category:
  "(if merchantIncludes m ''grabfood'' \<or> merchantIncludes m ''grab''
    then \<not> categoryHidden hc ''grabfood''
    else if merchantIncludes m ''foodpanda'' then \<not> categoryHidden hc ''foodpanda'' else True)
   = categoryVisible hc (inferCategory m)"
  by (simp add: categoryVisible_def inferCategory_def)

lemma visible_by_category_A:
  "(if merchantIncludes m ''grabfood''
    then \<not> categoryHidden hc ''grabfood''
    else if merchantIncludes m ''foodpanda'' then \<not> categoryHidden hc ''foodpanda'' else True)
   = categoryVisible hc (inferCategory_A m)"
  by (simp add: categoryVisible_def inferCategory_A_def)

text \<open>
  C6 (amended). On both pages the display list is the custom vouchers in stored order,
  filtered by the category overlay only, followed by the scraped vouchers in extraction
  order, filtered by the hidden state (and, on the detail-fetching page, by the list of
  excluded codes) and by the category overlay. Both parts are subsequences of their
  inputs, so nothing is reordered or interleaved.
\<close>

theorem combinedVouchers_order:
  "combinedVouchers w =
      map FromCustom
        (filter (\<lambda>v. categoryVisible (hiddenCategories w) (inferCategory (c_merchantName v)))
                (customVouchers w))
      @ map FromArticle
        (filter (\<lambda>a. orElse (a_couponCode a) [] \<notin> set excludedCodes
                    \<and> a_id a \<notin> set (hiddenVouchers w)
                    \<and> categoryVisible (hiddenCategories w) (inferCategory (a_merchantName a)))
                (discountArticles w))
   \<and> combinedVouchers_A w =
      map FromCustom
        (filter (\<lambda>v. categoryVisible (hiddenCategories w) (inferCategory_A (c_merchantName v)))
                (customVouchers w))
      @ map FromArticle
        (filter (\<lambda>a. orElse (a_couponCode a) [] \<notin> set (hiddenVouchers w)
                    \<and> categoryVisible (hiddenCategories w) (inferCategory_A (a_merchantName a)))
                (discountArticles w))
   \<and> (\<exists>cs as. combinedVouchers w = map FromCustom cs @ map FromArticle as
               \<and> subseq cs (customVouchers w) \<and> subseq as (discountArticles w))
   \<and> (\<exists>cs as. combinedVouchers_A w = map FromCustom cs @ map FromArticle as
               \<and> subseq cs (customVouchers w) \<and> subseq as (discountArticles w))"
proof -
  have B: "combinedVouchers w =
      map FromCustom
        (filter (\<lambda>v. categoryVisible (hiddenCategories w) (inferCategory (c_merchantName v)))
                (customVouchers w))
      @ map FromArticle
        (filter (\<lambda>a. orElse (a_couponCode a) [] \<notin> set excludedCodes
                    \<and> a_id a \<notin> set (hiddenVouchers w)
                    \<and> categoryVisible (hiddenCategories w) (inferCategory (a_merchantName a)))
                (discountArticles w))"
    unfolding combinedVouchers_def filteredDiscountArticles_def visible_by_category
    by (simp add: orElse_def conj_commute conj_left_commute cong: conj_cong)
  have A: "combinedVouchers_A w =
      map FromCustom
        (filter (\<lambda>v. categoryVisible (hiddenCategories w) (inferCategory_A (c_merchantName v)))
                (customVouchers w))
      @ map FromArticle
        (filter (\<lambda>a. orElse (a_couponCode a) [] \<notin> set (hiddenVouchers w)
                    \<and> categoryVisible (hiddenCategories w) (inferCategory_A (a_merchantName a)))
                (discountArticles w))"
    unfolding combinedVouchers_A_def filteredDiscountArticles_A_def visible_by_category_A
    by (simp add: conj_commute cong: conj_cong)
  have B': "\<exists>cs as. combinedVouchers w = map FromCustom cs @ map FromArticle as
               \<and> subseq cs (customVouchers w) \<and> subseq as (discountArticles w)"
    unfolding B by (intro exI conjI, rule refl) simp_all
  have A': "\<exists>cs as. combinedVouchers_A w = map FromCustom cs @ map FromArticle as
               \<and> subseq cs (customVouchers w) \<and> subseq as (discountArticles w)"
    unfolding A by (intro exI conjI, rule refl) simp_all
  from A B A' B' show ?thesis by blast
qed

text \<open>
  C6 as stated fails: the custom sublist is not filtered by the hidden state. With the
  code \<open>SAVE10\<close> hidden and a custom voucher carrying the same code, the page still shows
  the custom voucher.
\<close>

theorem custom_voucher_not_filtered_by_hidden:
  "combinedVouchers_A rehiddenWorld \<noteq> combinedAsClaimed_A rehiddenWorld
   \<and> actionableCodes (combinedVouchers_A rehiddenWorld) = [''SAVE10'', ''PANDA5'']
   \<and> actionableCodes (combinedAsClaimed_A rehiddenWorld) = [''PANDA5'']"
  by code_simp

section \<open>Extraction and display of codes\<close>

lemma actionable_nonempty: "c \<in> set (actionableCodes vs) \<Longrightarrow> c \<noteq> []"
  by (auto simp: actionableCodes_def orElse_def split: option.splits elim!: truthy.elims)

lemma scraped_not_excluded:
  assumes "c \<in> set (actionableCodes (filter (\<lambda>v. \<not> isCustom v) (combinedVouchers w)))"
  shows "c \<notin> set excludedCodes"
proof -
  from assms obtain v where v: "v \<in> set (combinedVouchers w)" "\<not> isCustom v"
    and c: "c = orElse (voucherCode v) []"
    by (auto simp: actionableCodes_def)
  from v obtain a where a: "v = FromArticle a" "a \<in> set (filteredDiscountArticles w)"
    by (auto simp: combinedVouchers_def)
  then have "orElse (a_couponCode a) [] \<notin> set excludedCodes"
    by (simp add: filteredDiscountArticles_def)
  with a c show ?thesis by simp
qed

text \<open>
  C5 (amended). For the list page with the three code attributes \<open>SAVE10\<close>, empty and
  \<open>NoCodeRequired\<close>, the list-only page shows two actionable codes, \<open>SAVE10\<close> and
  \<open>NoCodeRequired\<close>: the element with the empty code yields no record, and that page has no
  list of excluded codes. An empty code is never shown as actionable on either page. On the
  detail-fetching page no scraped voucher is shown with an excluded code, and the same three
  codes coming from the detail endpoint leave exactly one actionable code, \<open>SAVE10\<close>.
\<close>

theorem three_code_scenario:
  "actionableCodes
      (combinedVouchers_A (fetchGrabFoodVouchers_A clk scenarioPages_A False emptyWorld))
     = [''SAVE10'', ''NoCodeRequired'']
   \<and> (\<forall>c \<in> set (actionableCodes (combinedVouchers_A w)). c \<noteq> [])
   \<and> (\<forall>c \<in> set (actionableCodes (combinedVouchers w)). c \<noteq> [])
   \<and> (\<forall>c \<in> set (actionableCodes (filter (\<lambda>v. \<not> isCustom v) (combinedVouchers w))).
         c \<notin> set excludedCodes)
   \<and> actionableCodes
        (combinedVouchers (fetchGrabFoodVouchers clk scenarioPages scenarioDetails emptyWorld))
     = [''SAVE10'']"
proof -
  have A: "actionableCodes
      (combinedVouchers_A (fetchGrabFoodVouchers_A clk scenarioPages_A False emptyWorld))
     = [''SAVE10'', ''NoCodeRequired'']"
    by code_simp
  have B: "actionableCodes
        (combinedVouchers (fetchGrabFoodVouchers clk scenarioPages scenarioDetails emptyWorld))
     = [''SAVE10'']"
    by code_simp
  from A B show ?thesis
    using actionable_nonempty scraped_not_excluded by blast
qed

text \<open>
  C5 as stated fails: the page that reads codes from the attribute shows
  \<open>NoCodeRequired\<close> as a second actionable code.
\<close>

theorem sentinel_shown_by_list_page:
  "actionableCodes
      (combinedVouchers_A (fetchGrabFoodVouchers_A (\<lambda>n. 0) scenarioPages_A False emptyWorld))
     = [''SAVE10'', ''NoCodeRequired'']"
  by code_simp

theorem three_code_scenario_witness:
  "''SAVE10'' \<in> set (actionableCodes (filter (\<lambda>v. \<not> isCustom v)
        (combinedVouchers (fetchGrabFoodVouchers (\<lambda>n. 0) scenarioPages scenarioDetails emptyWorld))))
   \<and> ''SAVE10'' \<notin> set excludedCodes
   \<and> ''SAVE10'' \<noteq> []
   \<and> actionableCodes
        (combinedVouchers (fetchGrabFoodVouchers (\<lambda>n. 0) scenarioPages scenarioDetails emptyWorld))
       = [''SAVE10'']"
proof -
  have m: "''SAVE10'' \<in> set (actionableCodes (filter (\<lambda>v. \<not> isCustom v)
        (combinedVouchers (fetchGrabFoodVouchers (\<lambda>n. 0) scenarioPages scenarioDetails emptyWorld))))"
    by code_simp
  from m three_code_scenario[of "\<lambda>n. 0"
         "fetchGrabFoodVouchers (\<lambda>n. 0) scenarioPages scenarioDetails emptyWorld"]
  show ?thesis by auto
qed

section \<open>Detail fetch\<close>

lemma trace_after_read [simp]:
  "trace (snd (getCachedVoucherData clk k w)) = trace w"
  by (simp add: getCachedVoucherData_eq split: option.splits)

lemma trace_after_write [simp]:
  "trace (setCachedVoucherData clk k d w) = trace w"
  by (simp add: setCachedVoucherData_eq getCachedVoucherDataFull_eq split: option.splits prod.splits)

lemma decodeOffer_throws_iff:
  "(\<exists>msg. decodeOffer dat = Inl msg) \<longleftrightarrow>
     dat = JsonNull \<or> (\<exists>d. dat = Offer d \<and> (o_cta d = None \<or> o_code d = CodeOther))"
  by (cases dat) (auto simp: Let_def split: option.splits jsCode.splits prod.splits)

lemma decodeOffer_code:
  assumes "decodeOffer (Offer d) = Inr res"
  shows "code res =
           (case o_code d of
              CodeText (Text c) \<Rightarrow>
                if c \<noteq> [] \<and> \<not> shouldExcludeCode (stripNonAlphaNumeric c)
                then Some (stripNonAlphaNumeric c) else None
            | _ \<Rightarrow> None)"
  using assms
  by (auto simp: Let_def split: option.splits jsCode.splits jsText.splits prod.splits if_splits)

lemma decodeOffer_defaults:
  assumes "decodeOffer (Offer d) = Inr res"
  shows "headline res = Some (orElse (textOption (o_headline d))
                               (orElse (textOption (o_title d)) ''No headline available''))
       \<and> description res = Some (orElse (textOption (o_description d))
                               (orElse (textOption (o_content d)) ''No description available''))
       \<and> merchantName res = Some (orElse (case o_merchant d of None \<Rightarrow> None
                                            | Some n \<Rightarrow> textOption n) ''Unknown merchant'')"
  using assms
  by (auto simp: Let_def split: option.splits jsCode.splits prod.splits if_splits)

lemma fetchVoucherCode_miss:
  assumes "fst (getCachedVoucherData clk articleId w) = None"
  shows "fetchVoucherCode clk details articleId w =
     (case fetchVoucherCodeTry clk details articleId (snd (getCachedVoucherData clk articleId w)) of
        (Inl err, w2) \<Rightarrow> (None, w2)
      | (Inr r, w2) \<Rightarrow> (r, w2))"
  using assms by (cases "getCachedVoucherData clk articleId w") (auto simp: fetchVoucherCode_def)

lemma fetchVoucherCode_hit:
  assumes "fst (getCachedVoucherData clk articleId w) = Some c"
  shows "fetchVoucherCode clk details articleId w = (Some c, snd (getCachedVoucherData clk articleId w))"
  using assms by (cases "getCachedVoucherData clk articleId w") (auto simp: fetchVoucherCode_def)

text \<open>
  C9 (amended). On a store whose cache namespace holds only serialised entries, and on a
  cache miss, \<^verbatim>\<open>fetchVoucherCode\<close> returns \<^verbatim>\<open>null\<close>, and never throws,
  when the request rejects, when the status is not 2xx, when reading the body as JSON
  rejects, and when decoding throws: the body is \<^verbatim>\<open>null\<close>, the \<^verbatim>\<open>cta\<close> object is
  missing, or the code is not a text. Every other answer yields a record, which is also
  written to the cache: missing fields get their defaults, and the code of the record is
  the cleaned code, or \<^verbatim>\<open>null\<close> when the code is missing, empty, or cleans to an excluded
  sentinel.
\<close>

theorem fetchVoucherCode_outcomes:
  assumes wf: "cacheWellFormed (localStorage w)"
    and miss: "fst (getCachedVoucherData clk articleId w) = None"
  shows "(\<forall>msg. details (length (trace w)) articleId = NetworkError msg \<longrightarrow>
            fst (fetchVoucherCode clk details articleId w) = None)
       \<and> (\<forall>status body. details (length (trace w)) articleId = Response status body
              \<and> \<not> ok status \<longrightarrow>
            fst (fetchVoucherCode clk details articleId w) = None)
       \<and> (\<forall>status msg. details (length (trace w)) articleId = Response status (Inl msg) \<longrightarrow>
            fst (fetchVoucherCode clk details articleId w) = None)
       \<and> (\<forall>status dat. details (length (trace w)) articleId = Response status (Inr dat)
              \<and> (dat = JsonNull
                  \<or> (\<exists>d. dat = Offer d \<and> (o_cta d = None \<or> o_code d = CodeOther))) \<longrightarrow>
            fst (fetchVoucherCode clk details articleId w) = None)
       \<and> (\<forall>status d. details (length (trace w)) articleId = Response status (Inr (Offer d))
              \<and> ok status \<and> o_cta d \<noteq> None \<and> o_code d \<noteq> CodeOther \<longrightarrow>
            (\<exists>res. fst (fetchVoucherCode clk details articleId w) = Some res
               \<and> decodeOffer (Offer d) = Inr res
               \<and> code res =
                   (case o_code d of
                      CodeText (Text c) \<Rightarrow>
                        if c \<noteq> [] \<and> \<not> shouldExcludeCode (stripNonAlphaNumeric c)
                        then Some (stripNonAlphaNumeric c) else None
                    | _ \<Rightarrow> None)
               \<and> map_option VoucherData.truncate
                    (storedEntry (snd (fetchVoucherCode clk details articleId w)) articleId)
                   = Some res))"
proof (intro conjI allI impI)
  fix msg assume "details (length (trace w)) articleId = NetworkError msg"
  then show "fst (fetchVoucherCode clk details articleId w) = None"
    by (simp add: fetchVoucherCode_miss[OF miss] fetchVoucherCodeTry_def Let_def)
next
  fix status body
  assume "details (length (trace w)) articleId = Response status body \<and> \<not> ok status"
  then show "fst (fetchVoucherCode clk details articleId w) = None"
    by (simp add: fetchVoucherCode_miss[OF miss] fetchVoucherCodeTry_def Let_def)
next
  fix status msg
  assume "details (length (trace w)) articleId = Response status (Inl msg)"
  then show "fst (fetchVoucherCode clk details articleId w) = None"
    by (simp add: fetchVoucherCode_miss[OF miss] fetchVoucherCodeTry_def Let_def)
next
  fix status dat
  assume a: "details (length (trace w)) articleId = Response status (Inr dat)
              \<and> (dat = JsonNull
                  \<or> (\<exists>d. dat = Offer d \<and> (o_cta d = None \<or> o_code d = CodeOther)))"
  then obtain msg where "decodeOffer dat = Inl msg"
    using decodeOffer_throws_iff by blast
  with a show "fst (fetchVoucherCode clk details articleId w) = None"
    by (simp add: fetchVoucherCode_miss[OF miss] fetchVoucherCodeTry_def Let_def)
next
  fix status d
  assume a: "details (length (trace w)) articleId = Response status (Inr (Offer d))
              \<and> ok status \<and> o_cta d \<noteq> None \<and> o_code d \<noteq> CodeOther"
  then have "\<not> (\<exists>msg. decodeOffer (Offer d) = Inl msg)"
    unfolding decodeOffer_throws_iff by simp
  then obtain res where res: "decodeOffer (Offer d) = Inr res"
    by (cases "decodeOffer (Offer d)") auto
  with a have r: "fst (fetchVoucherCode clk details articleId w) = Some res"
    and st: "storedEntry (snd (fetchVoucherCode clk details articleId w)) articleId
             = storedEntry (setCachedVoucherData clk articleId res
                 ((snd (getCachedVoucherData clk articleId w))
                    \<lparr>trace := trace w @ [DetailRequest articleId]\<rparr>)) articleId"
    by (simp_all add: fetchVoucherCode_miss[OF miss] fetchVoucherCodeTry_def Let_def)
  from st have "map_option VoucherData.truncate
                  (storedEntry (snd (fetchVoucherCode clk details articleId w)) articleId)
                = Some res"
    by (simp add: storedEntry_after_write)
  with r res decodeOffer_code[OF res]
  show "\<exists>res. fst (fetchVoucherCode clk details articleId w) = Some res
               \<and> decodeOffer (Offer d) = Inr res
               \<and> code res =
                   (case o_code d of
                      CodeText (Text c) \<Rightarrow>
                        if c \<noteq> [] \<and> \<not> shouldExcludeCode (stripNonAlphaNumeric c)
                        then Some (stripNonAlphaNumeric c) else None
                    | _ \<Rightarrow> None)
               \<and> map_option VoucherData.truncate
                    (storedEntry (snd (fetchVoucherCode clk details articleId w)) articleId)
                   = Some res"
    by simp
qed

text \<open>
  C9 as stated fails: an answer that lacks the code, the headline, the description and the
  merchant is not turned into \<^verbatim>\<open>null\<close>; the defaults are filled in and the record is
  returned.
\<close>

theorem missing_fields_get_defaults:
  "fst (fetchVoucherCode (\<lambda>n. 0) (\<lambda>n articleId. Response 200 (Inr sparseOffer)) ''a1'' emptyWorld)
     = Some \<lparr>code = None, cta = Some ''Get 10% off'',
             headline = Some ''No headline available'',
             description = Some ''No description available'',
             merchantName = Some ''Unknown merchant''\<rparr>"
  by code_simp

theorem fetchVoucherCode_outcomes_witness:
  "cacheWellFormed (localStorage emptyWorld)
   \<and> fst (getCachedVoucherData (\<lambda>n. 0) ''a1'' emptyWorld) = None
   \<and> fst (fetchVoucherCode (\<lambda>n. 0) (\<lambda>n i. NetworkError ''offline'') ''a1'' emptyWorld) = None
   \<and> fst (fetchVoucherCode (\<lambda>n. 0) (\<lambda>n i. Response 503 (Inr sparseOffer)) ''a1'' emptyWorld) = None
   \<and> map_option code
        (fst (fetchVoucherCode (\<lambda>n. 0)
                (\<lambda>n i. Response 200 (Inr (scenarioOffer (Text ''SAVE-10'')))) ''a1'' emptyWorld))
       = Some (Some ''SAVE10'')
   \<and> map_option code
        (fst (fetchVoucherCode (\<lambda>n. 0)
                (\<lambda>n i. Response 200 (Inr (scenarioOffer (Text ''No-Code-Required'')))) ''a1''
                emptyWorld))
       = Some None"
proof -
  have miss: "fst (getCachedVoucherData (\<lambda>n. 0) ''a1'' emptyWorld) = None"
    by (simp add: getCachedVoucherData_def emptyWorld_def getItem_def)
  have ok200: "ok 200" and nok: "\<not> ok 503"
    by (simp_all add: ok_def)
  have ex1: "\<not> shouldExcludeCode (stripNonAlphaNumeric ''SAVE-10'')"
    and c1: "stripNonAlphaNumeric ''SAVE-10'' = ''SAVE10''"
    and ex2: "shouldExcludeCode (stripNonAlphaNumeric ''No-Code-Required'')"
    by code_simp+
  note th = fetchVoucherCode_outcomes[OF wellFormed_emptyWorld miss]
  have a: "fst (fetchVoucherCode (\<lambda>n. 0) (\<lambda>n i. NetworkError ''offline'') ''a1'' emptyWorld) = None"
    using th[of "\<lambda>n i. NetworkError ''offline''"] by simp
  have b: "fst (fetchVoucherCode (\<lambda>n. 0) (\<lambda>n i. Response 503 (Inr sparseOffer)) ''a1'' emptyWorld) = None"
    using th[of "\<lambda>n i. Response 503 (Inr sparseOffer)"] nok by simp
  have c: "map_option code
        (fst (fetchVoucherCode (\<lambda>n. 0)
                (\<lambda>n i. Response 200 (Inr (scenarioOffer (Text ''SAVE-10'')))) ''a1'' emptyWorld))
       = Some (Some ''SAVE10'')"
    using th[of "\<lambda>n i. Response 200 (Inr (scenarioOffer (Text ''SAVE-10'')))"] ok200 ex1 c1
    by (auto simp: scenarioOffer_def simp del: decodeOffer.simps)
  have d: "map_option code
        (fst (fetchVoucherCode (\<lambda>n. 0)
                (\<lambda>n i. Response 200 (Inr (scenarioOffer (Text ''No-Code-Required'')))) ''a1''
                emptyWorld))
       = Some None"
    using th[of "\<lambda>n i. Response 200 (Inr (scenarioOffer (Text ''No-Code-Required'')))"] ok200 ex2
    by (auto simp: scenarioOffer_def simp del: decodeOffer.simps)
  from wellFormed_emptyWorld miss a b c d show ?thesis by simp
qed

section \<open>The detail loop\<close>

lemma read_miss_iff:
  "fst (getCachedVoucherData clk k w) = None \<longleftrightarrow> \<not> freshAt clk k w"
  by (simp add: getCachedVoucherData_eq freshAt_def split: option.splits)

lemma stored_after_miss:
  "\<not> freshAt clk k w \<Longrightarrow> storedEntry (snd (getCachedVoucherData clk k w)) k = None"
  by (simp add: storedEntry_after_read)

lemma not_fresh_without_entry: "storedEntry w k = None \<Longrightarrow> \<not> freshAt clk k w"
  by (simp add: freshAt_def)

lemma trace_splice [simp]: "trace (snd (spliceVoucherData i vd w)) = trace w"
  by (simp add: spliceVoucherData_def)

lemma splice_in_range:
  "i < length (discountArticles w) \<Longrightarrow> fst (spliceVoucherData i vd w) = None"
  by (simp add: spliceVoucherData_def)

lemma trace_try:
  "trace (snd (fetchVoucherCodeTry clk details k w)) = trace w @ [DetailRequest k]"
  by (simp add: fetchVoucherCodeTry_def Let_def
           split: response.splits sum.splits)

lemma articles_after_read [simp]:
  "discountArticles (snd (getCachedVoucherData clk k w)) = discountArticles w"
  by (simp add: getCachedVoucherData_eq split: option.splits)

lemma articles_after_write [simp]:
  "discountArticles (setCachedVoucherData clk k d w) = discountArticles w"
  by (simp add: setCachedVoucherData_eq getCachedVoucherDataFull_eq split: option.splits prod.splits)

lemma articles_try [simp]:
  "discountArticles (snd (fetchVoucherCodeTry clk details k w)) = discountArticles w"
  by (simp add: fetchVoucherCodeTry_def Let_def split: response.splits sum.splits)

lemma fetchVoucherCode_after_miss:
  assumes "\<not> freshAt clk k w"
  shows "trace (snd (fetchVoucherCode clk details k (snd (getCachedVoucherData clk k w))))
           = trace w @ [DetailRequest k]"
    and "discountArticles (snd (fetchVoucherCode clk details k (snd (getCachedVoucherData clk k w))))
           = discountArticles w"
proof -
  let ?w1 = "snd (getCachedVoucherData clk k w)"
  from assms have "storedEntry ?w1 k = None" by (rule stored_after_miss)
  then have "\<not> freshAt clk k ?w1" by (rule not_fresh_without_entry)
  then have miss: "fst (getCachedVoucherData clk k ?w1) = None" by (simp add: read_miss_iff)
  show "trace (snd (fetchVoucherCode clk details k ?w1)) = trace w @ [DetailRequest k]"
    by (simp add: fetchVoucherCode_miss[OF miss] trace_try split: prod.splits sum.splits)
       (metis snd_conv trace_try trace_after_read)
  show "discountArticles (snd (fetchVoucherCode clk details k ?w1)) = discountArticles w"
    by (simp add: fetchVoucherCode_miss[OF miss] split: prod.splits sum.splits)
       (metis snd_conv articles_try articles_after_read)
qed

lemma resolveArticle_hit:
  assumes "freshAt clk (a_id article) w"
  shows "trace (snd (resolveArticle clk details i article w)) = trace w"
proof -
  from assms obtain c where c: "fst (getCachedVoucherData clk (a_id article) w) = Some c"
    using read_miss_iff[of clk "a_id article" w] by auto
  obtain r w1 where rw: "getCachedVoucherData clk (a_id article) w = (r, w1)"
    by (cases "getCachedVoucherData clk (a_id article) w")
  with c have r: "r = Some c" by simp
  from rw have "trace w1 = trace w"
    using trace_after_read[of clk "a_id article" w] by simp
  with rw r show ?thesis
    by (simp add: resolveArticle_def)
qed

lemma resolveArticle_miss:
  assumes "\<not> freshAt clk (a_id article) w"
  shows "trace (snd (resolveArticle clk details i article w)) =
           trace w @ DetailRequest (a_id article)
             # (if fst (resolveArticle clk details i article w) = None then [Delay 500] else [])"
    and "i < length (discountArticles w) \<Longrightarrow> fst (resolveArticle clk details i article w) = None"
proof -
  let ?k = "a_id article"
  obtain r w1 where rw: "getCachedVoucherData clk ?k w = (r, w1)"
    by (cases "getCachedVoucherData clk ?k w")
  with assms have r: "r = None"
    using read_miss_iff[of clk ?k w] by simp
  from rw have w1: "w1 = snd (getCachedVoucherData clk ?k w)" by simp
  obtain vd w2 where f: "fetchVoucherCode clk details ?k w1 = (vd, w2)"
    by (cases "fetchVoucherCode clk details ?k w1")
  from f have w2: "w2 = snd (fetchVoucherCode clk details ?k w1)" by simp
  have t2: "trace w2 = trace w @ [DetailRequest ?k]"
    unfolding w2 w1 by (rule fetchVoucherCode_after_miss(1)[OF assms])
  have a2: "discountArticles w2 = discountArticles w"
    unfolding w2 w1 by (rule fetchVoucherCode_after_miss(2)[OF assms])
  define inner where "inner =
    (case vd of None \<Rightarrow> (None, w2)
     | Some v \<Rightarrow> if truthy (code v) then spliceVoucherData i v w2 else (None, w2))"
  have t3: "trace (snd inner) = trace w @ [DetailRequest ?k]"
    by (simp add: inner_def t2 split: option.splits)
  have res: "resolveArticle clk details i article w =
      (case inner of (Some err, w3) \<Rightarrow> (Some err, w3)
       | (None, w3) \<Rightarrow> (None, w3\<lparr>trace := trace w3 @ [Delay 500]\<rparr>))"
    by (simp add: resolveArticle_def rw r f inner_def)
  show "trace (snd (resolveArticle clk details i article w)) =
           trace w @ DetailRequest ?k
             # (if fst (resolveArticle clk details i article w) = None then [Delay 500] else [])"
    using t3 by (cases inner) (auto simp: res split: option.splits)
  assume "i < length (discountArticles w)"
  with a2 have "fst inner = None"
    by (simp add: inner_def splice_in_range split: option.splits)
  then show "fst (resolveArticle clk details i article w) = None"
    by (cases inner) (auto simp: res split: option.splits)
qed

lemma resolveArticle_hit_splice:
  assumes "storedEntry w (a_id article) = Some e" and "clk (tick w) \<le> expire e"
    and "truthy (code e)" and "i < length (discountArticles w)"
  shows "discountArticles (snd (resolveArticle clk details i article w)) =
           (discountArticles w)
             [i := (discountArticles w ! i)
                     \<lparr>a_couponCode := code e, a_cta := cta e, a_headline := headline e,
                      a_description := description e, a_merchantName := merchantName e\<rparr>]"
  using assms
  by (simp add: resolveArticle_def getCachedVoucherData_eq spliceVoucherData_def
        VoucherData.truncate_def)

lemma throttled_pair: "throttled (DetailRequest k # Delay n # evs) = throttled evs"
  by simp

lemma resolveDetails_trace:
  "\<exists>evs. trace (snd (resolveDetails clk details ias w)) = trace w @ evs \<and> throttled evs"
proof (induction ias arbitrary: w)
  case Nil
  show ?case by simp
next
  case (Cons ia ias)
  obtain i article where ia: "ia = (i, article)" by (cases ia)
  obtain e w1 where step: "resolveArticle clk details i article w = (e, w1)"
    by (cases "resolveArticle clk details i article w")
  show ?case
  proof (cases "freshAt clk (a_id article) w")
    case True
    then have t1: "trace w1 = trace w"
      using resolveArticle_hit[of clk article w details i] step by simp
    show ?thesis
    proof (cases e)
      case None
      with Cons.IH[of w1] t1 step ia show ?thesis by simp
    next
      case (Some err)
      with t1 step ia show ?thesis by simp
    qed
  next
    case False
    show ?thesis
    proof (cases e)
      case None
      with False step have t1: "trace w1 = trace w @ [DetailRequest (a_id article), Delay 500]"
        using resolveArticle_miss(1)[of clk article w details i] by simp
      from Cons.IH[of w1] obtain evs where
        "trace (snd (resolveDetails clk details ias w1)) = trace w1 @ evs" "throttled evs"
        by blast
      with t1 have "trace (snd (resolveDetails clk details ias w1))
                      = trace w @ (DetailRequest (a_id article) # Delay 500 # evs)
                    \<and> throttled (DetailRequest (a_id article) # Delay 500 # evs)"
        by simp
      with None step ia show ?thesis by auto
    next
      case (Some err)
      with False step have "trace w1 = trace w @ [DetailRequest (a_id article)]"
        using resolveArticle_miss(1)[of clk article w details i] by simp
      then have "trace w1 = trace w @ [DetailRequest (a_id article)]
                 \<and> throttled [DetailRequest (a_id article)]" by simp
      with Some step ia show ?thesis by auto
    qed
  qed
qed

subsection \<open>The effects of the loop, article by article\<close>

lemma articles_fetchVoucherCode [simp]:
  "discountArticles (snd (fetchVoucherCode clk details k w)) = discountArticles w"
proof -
  obtain r w1 where rw: "getCachedVoucherData clk k w = (r, w1)"
    by (cases "getCachedVoucherData clk k w")
  then have w1: "w1 = snd (getCachedVoucherData clk k w)" by simp
  obtain t w2 where tw: "fetchVoucherCodeTry clk details k w1 = (t, w2)"
    by (cases "fetchVoucherCodeTry clk details k w1")
  then have w2: "w2 = snd (fetchVoucherCodeTry clk details k w1)" by simp
  have a1: "discountArticles w1 = discountArticles w" by (simp add: w1)
  have a2: "discountArticles w2 = discountArticles w" by (simp add: w2 a1)
  from rw tw a1 a2 show ?thesis
    by (simp add: fetchVoucherCode_def split: option.splits sum.splits)
qed

lemma length_splice [simp]:
  "length (discountArticles (snd (spliceVoucherData i vd w))) = length (discountArticles w)"
  by (simp add: spliceVoucherData_def)

lemma length_resolveArticle [simp]:
  "length (discountArticles (snd (resolveArticle clk details i article w)))
     = length (discountArticles w)"
proof -
  let ?k = "a_id article"
  obtain r w1 where rw: "getCachedVoucherData clk ?k w = (r, w1)"
    by (cases "getCachedVoucherData clk ?k w")
  then have w1: "w1 = snd (getCachedVoucherData clk ?k w)" by simp
  obtain vd w2 where f: "fetchVoucherCode clk details ?k w1 = (vd, w2)"
    by (cases "fetchVoucherCode clk details ?k w1")
  then have w2: "w2 = snd (fetchVoucherCode clk details ?k w1)" by simp
  define inner where "inner =
    (case vd of None \<Rightarrow> (None, w2)
     | Some v \<Rightarrow> if truthy (code v) then spliceVoucherData i v w2 else (None, w2))"
  have a1: "discountArticles w1 = discountArticles w" by (simp add: w1)
  have a2: "discountArticles w2 = discountArticles w" by (simp add: w2 a1)
  have a3: "length (discountArticles (snd inner)) = length (discountArticles w)"
    by (simp add: inner_def a2 split: option.splits)
  have res: "resolveArticle clk details i article w =
      (case r of
         Some cachedData \<Rightarrow>
           if truthy (code cachedData) then spliceVoucherData i cachedData w1 else (None, w1)
       | None \<Rightarrow>
          (case inner of (Some err, w3) \<Rightarrow> (Some err, w3)
           | (None, w3) \<Rightarrow> (None, w3\<lparr>trace := trace w3 @ [Delay 500]\<rparr>)))"
    by (simp add: resolveArticle_def rw f inner_def split: option.splits)
  show ?thesis
    using a1 a3 by (cases inner) (auto simp: res split: option.splits)
qed

lemma resolveArticle_in_range:
  assumes "i < length (discountArticles w)"
  shows "fst (resolveArticle clk details i article w) = None"
proof (cases "freshAt clk (a_id article) w")
  case False
  with assms show ?thesis by (simp add: resolveArticle_miss(2))
next
  case True
  then obtain e where e: "storedEntry w (a_id article) = Some e" "clk (tick w) \<le> expire e"
    by (auto simp: freshAt_def split: option.splits)
  with assms show ?thesis
    by (simp add: resolveArticle_def getCachedVoucherData_eq spliceVoucherData_def)
qed

lemma resolveArticle_fresh_falsy:
  assumes "storedEntry w (a_id article) = Some e" and "clk (tick w) \<le> expire e"
    and "\<not> truthy (code e)"
  shows "resolveArticle clk details i article w = (None, w\<lparr>tick := Suc (tick w)\<rparr>)"
  using assms
  by (simp add: resolveArticle_def getCachedVoucherData_eq VoucherData.truncate_def)

lemma resolveArticle_effects:
  assumes "i < length (discountArticles w)"
  shows "trace (snd (resolveArticle clk details i article w)) =
           trace w @ (if freshAt clk (a_id article) w then []
                      else [DetailRequest (a_id article), Delay 500])"
proof (cases "freshAt clk (a_id article) w")
  case True
  then show ?thesis by (simp add: resolveArticle_hit)
next
  case False
  with assms show ?thesis
    using resolveArticle_miss(1)[of clk article w details i] resolveArticle_miss(2)[of clk article w i details]
    by simp
qed

lemma resolveDetails_effects:
  assumes "\<forall>(i, article) \<in> set ias. i < length (discountArticles w)"
  shows "fst (resolveDetails clk details ias w) = None
       \<and> trace (snd (resolveDetails clk details ias w)) = trace w @ loopEffects clk details ias w"
  using assms
proof (induction ias arbitrary: w)
  case Nil
  show ?case by simp
next
  case (Cons ia ias)
  obtain i article where ia: "ia = (i, article)" by (cases ia)
  obtain e w1 where step: "resolveArticle clk details i article w = (e, w1)"
    by (cases "resolveArticle clk details i article w")
  then have w1: "w1 = snd (resolveArticle clk details i article w)" by simp
  from Cons.prems ia have ir: "i < length (discountArticles w)" by simp
  then have e: "e = None"
    using resolveArticle_in_range[of i w clk details article] step by simp
  have len: "length (discountArticles w1) = length (discountArticles w)"
    by (simp add: w1)
  with Cons.prems have "\<forall>(i, article) \<in> set ias. i < length (discountArticles w1)"
    by simp
  from Cons.IH[OF this]
  have IH: "fst (resolveDetails clk details ias w1) = None"
    "trace (snd (resolveDetails clk details ias w1)) = trace w1 @ loopEffects clk details ias w1"
    by simp_all
  have t1: "trace w1 = trace w @ (if freshAt clk (a_id article) w then []
                                  else [DetailRequest (a_id article), Delay 500])"
    unfolding w1 by (rule resolveArticle_effects[OF ir])
  have le: "loopEffects clk details (ia # ias) w =
              (if freshAt clk (a_id article) w then []
               else [DetailRequest (a_id article), Delay 500]) @ loopEffects clk details ias w1"
    unfolding w1 ia by simp
  have rd: "resolveDetails clk details (ia # ias) w = resolveDetails clk details ias w1"
    unfolding ia using step e by simp
  show ?case
    unfolding rd le using IH t1 by simp
qed

text \<open>
  C8 (amended). On a store whose cache namespace holds only serialised entries: when the store
  holds an unexpired entry for the id of the article being processed, the loop body adds
  nothing to the trace, neither a request for that id nor a delay. The cached fields are
  written into the article only when the cached code is truthy; an unexpired entry whose code
  is \<^verbatim>\<open>null\<close> or empty leaves the extracted articles as they were. On a miss the body adds
  exactly one detail request for that id followed by one delay of 500 ms. Over the whole loop
  every delay directly follows a detail request, and when every index is within the article
  list the loop ends without an exception and its effects are exactly, article by article,
  nothing on a hit and one request with its delay on a miss.
\<close>

theorem cache_hit_skips_request:
  assumes "cacheWellFormed (localStorage w)"
  shows "(freshAt clk (a_id article) w \<longrightarrow>
      trace (snd (resolveArticle clk details i article w)) = trace w)
   \<and> (\<forall>e. storedEntry w (a_id article) = Some e \<and> clk (tick w) \<le> expire e
           \<and> truthy (code e) \<and> i < length (discountArticles w) \<longrightarrow>
         discountArticles (snd (resolveArticle clk details i article w)) =
           (discountArticles w)
             [i := (discountArticles w ! i)
                     \<lparr>a_couponCode := code e, a_cta := cta e, a_headline := headline e,
                      a_description := description e, a_merchantName := merchantName e\<rparr>])
   \<and> (\<forall>e. storedEntry w (a_id article) = Some e \<and> clk (tick w) \<le> expire e
           \<and> \<not> truthy (code e) \<longrightarrow>
         discountArticles (snd (resolveArticle clk details i article w)) = discountArticles w)
   \<and> (\<not> freshAt clk (a_id article) w \<and> i < length (discountArticles w) \<longrightarrow>
      trace (snd (resolveArticle clk details i article w))
        = trace w @ [DetailRequest (a_id article), Delay 500])
   \<and> (\<exists>evs. trace (snd (resolveDetails clk details ias w)) = trace w @ evs \<and> throttled evs)
   \<and> ((\<forall>(j, a) \<in> set ias. j < length (discountArticles w)) \<longrightarrow>
        fst (resolveDetails clk details ias w) = None
        \<and> trace (snd (resolveDetails clk details ias w))
            = trace w @ loopEffects clk details ias w)"
proof (intro conjI impI allI)
  fix e
  assume "storedEntry w (a_id article) = Some e \<and> clk (tick w) \<le> expire e
           \<and> truthy (code e) \<and> i < length (discountArticles w)"
  then show "discountArticles (snd (resolveArticle clk details i article w)) =
           (discountArticles w)
             [i := (discountArticles w ! i)
                     \<lparr>a_couponCode := code e, a_cta := cta e, a_headline := headline e,
                      a_description := description e, a_merchantName := merchantName e\<rparr>]"
    using resolveArticle_hit_splice by blast
next
  fix e
  assume "storedEntry w (a_id article) = Some e \<and> clk (tick w) \<le> expire e
           \<and> \<not> truthy (code e)"
  then have "resolveArticle clk details i article w = (None, w\<lparr>tick := Suc (tick w)\<rparr>)"
    using resolveArticle_fresh_falsy by blast
  then show "discountArticles (snd (resolveArticle clk details i article w)) = discountArticles w"
    by simp
next
  assume "freshAt clk (a_id article) w"
  then show "trace (snd (resolveArticle clk details i article w)) = trace w"
    by (rule resolveArticle_hit)
next
  assume a: "\<not> freshAt clk (a_id article) w \<and> i < length (discountArticles w)"
  then have "fst (resolveArticle clk details i article w) = None"
    using resolveArticle_miss(2) by blast
  with a show "trace (snd (resolveArticle clk details i article w))
                 = trace w @ [DetailRequest (a_id article), Delay 500]"
    using resolveArticle_miss(1)[of clk article w details i] by simp
next
  show "\<exists>evs. trace (snd (resolveDetails clk details ias w)) = trace w @ evs \<and> throttled evs"
    by (rule resolveDetails_trace)
next
  assume r: "\<forall>(j, a) \<in> set ias. j < length (discountArticles w)"
  from resolveDetails_effects[OF r]
  show "fst (resolveDetails clk details ias w) = None" by blast
  from resolveDetails_effects[OF r]
  show "trace (snd (resolveDetails clk details ias w)) = trace w @ loopEffects clk details ias w"
    by blast
qed

text \<open>
  C8 as stated fails: an unexpired entry with a \<^verbatim>\<open>null\<close> code and a call to action is a cache
  hit, and the loop body leaves the article with the call to action and the empty code it was
  extracted with; the cached fields are not used.
\<close>

theorem fresh_null_code_not_spliced:
  "cacheWellFormed (localStorage nullCodeWorld)
   \<and> freshAt (\<lambda>n. 50) (a_id sampleArticle) nullCodeWorld
   \<and> map_option cta (storedEntry nullCodeWorld (a_id sampleArticle)) = Some (Some ''Get 10% off'')
   \<and> discountArticles nullCodeWorld = [sampleArticle]
   \<and> discountArticles (snd (resolveArticle (\<lambda>n. 50) scenarioDetails 0 sampleArticle
                               nullCodeWorld)) = [sampleArticle]
   \<and> a_cta sampleArticle = Some ''View Offer''
   \<and> a_couponCode sampleArticle = None"
  by code_simp

theorem cache_hit_skips_request_witness:
  "cacheWellFormed (localStorage (staleWorld\<lparr>discountArticles := [sampleArticle]\<rparr>))
   \<and> freshAt (\<lambda>n. 50) (a_id sampleArticle) (staleWorld\<lparr>discountArticles := [sampleArticle]\<rparr>)
   \<and> trace (snd (resolveArticle (\<lambda>n. 50) scenarioDetails 0 sampleArticle
                    (staleWorld\<lparr>discountArticles := [sampleArticle]\<rparr>))) = []
   \<and> map a_couponCode
        (discountArticles (snd (resolveArticle (\<lambda>n. 50) scenarioDetails 0 sampleArticle
                                  (staleWorld\<lparr>discountArticles := [sampleArticle]\<rparr>))))
       = [Some ''OLD5'']
   \<and> \<not> freshAt (\<lambda>n. 200) (a_id sampleArticle) (staleWorld\<lparr>discountArticles := [sampleArticle]\<rparr>)
   \<and> trace (snd (resolveArticle (\<lambda>n. 200) scenarioDetails 0 sampleArticle
                    (staleWorld\<lparr>discountArticles := [sampleArticle]\<rparr>)))
       = [DetailRequest ''a1'', Delay 500]
   \<and> trace (snd (resolveDetails (\<lambda>n. 200) scenarioDetails [(0, sampleArticle)]
                    (staleWorld\<lparr>discountArticles := [sampleArticle]\<rparr>)))
       = [DetailRequest ''a1'', Delay 500]
   \<and> trace (snd (resolveDetails (\<lambda>n. 50) scenarioDetails [(0, sampleArticle)]
                    (staleWorld\<lparr>discountArticles := [sampleArticle]\<rparr>))) = []
   \<and> cacheWellFormed (localStorage nullCodeWorld)
   \<and> discountArticles (snd (resolveArticle (\<lambda>n. 50) scenarioDetails 0 sampleArticle
                               nullCodeWorld)) = [sampleArticle]"
proof -
  let ?w = "staleWorld\<lparr>discountArticles := [sampleArticle]\<rparr>"
  have se: "storedEntry ?w ''a1'' =
              Some \<lparr>code = Some ''OLD5'', cta = None, headline = None, description = None,
                    merchantName = Some ''FoodPanda'', expire = 100, hidden = Some True\<rparr>"
    by (simp add: storedEntry_def staleWorld_def emptyWorld_def getItem_def)
  have wf: "cacheWellFormed (localStorage ?w)"
    by (simp add: cacheWellFormed_def staleWorld_def emptyWorld_def)
  have basics: "a_id sampleArticle = ''a1''" "tick ?w = 0" "trace ?w = []"
    "discountArticles ?w = [sampleArticle]"
    by (simp_all add: sampleArticle_def staleWorld_def emptyWorld_def)
  have fresh: "freshAt (\<lambda>n. 50) (a_id sampleArticle) ?w"
    by (simp add: freshAt_def basics se)
  have stale: "\<not> freshAt (\<lambda>n. 200) (a_id sampleArticle) ?w"
    by (simp add: freshAt_def basics se)
  from cache_hit_skips_request[OF wf, of "\<lambda>n. 50" sampleArticle scenarioDetails 0
         "[(0, sampleArticle)]"] fresh se
  have hit: "trace (snd (resolveArticle (\<lambda>n. 50) scenarioDetails 0 sampleArticle ?w)) = []"
    and spl: "map a_couponCode
        (discountArticles (snd (resolveArticle (\<lambda>n. 50) scenarioDetails 0 sampleArticle ?w)))
       = [Some ''OLD5'']"
    and loophit: "trace (snd (resolveDetails (\<lambda>n. 50) scenarioDetails [(0, sampleArticle)] ?w))
       = []"
    by (simp_all add: basics)
  from cache_hit_skips_request[OF wf, of "\<lambda>n. 200" sampleArticle scenarioDetails 0
         "[(0, sampleArticle)]"] stale
  have miss: "trace (snd (resolveArticle (\<lambda>n. 200) scenarioDetails 0 sampleArticle ?w))
       = [DetailRequest ''a1'', Delay 500]"
    and loopmiss: "trace (snd (resolveDetails (\<lambda>n. 200) scenarioDetails [(0, sampleArticle)] ?w))
       = [DetailRequest ''a1'', Delay 500]"
    by (simp_all add: basics)
  have wfn: "cacheWellFormed (localStorage nullCodeWorld)"
    by (simp add: cacheWellFormed_def nullCodeWorld_def emptyWorld_def)
  have sen: "storedEntry nullCodeWorld ''a1'' =
              Some \<lparr>code = None, cta = Some ''Get 10% off'', headline = Some ''Deal'',
                    description = Some ''Details'', merchantName = Some ''GrabFood'',
                    expire = 100, hidden = Some False\<rparr>"
    by (simp add: storedEntry_def nullCodeWorld_def emptyWorld_def getItem_def)
  have bn: "tick nullCodeWorld = 0" "discountArticles nullCodeWorld = [sampleArticle]"
    by (simp_all add: nullCodeWorld_def emptyWorld_def)
  from cache_hit_skips_request[OF wfn, of "\<lambda>n. 50" sampleArticle scenarioDetails 0 "[]"] sen
  have nul: "discountArticles (snd (resolveArticle (\<lambda>n. 50) scenarioDetails 0 sampleArticle
                               nullCodeWorld)) = [sampleArticle]"
    by (simp add: basics bn)
  from wf fresh stale hit spl miss loopmiss loophit wfn nul show ?thesis by simp
qed

section \<open>Forced refresh\<close>

lemma fold_delete_filter:
  "fold (\<lambda>key ls. if P key then AList.delete key ls else ls) ks ls =
     filter (\<lambda>(k, v). \<not> (P k \<and> k \<in> set ks)) ls"
proof (induction ks arbitrary: ls)
  case Nil
  show ?case by simp
next
  case (Cons k ks)
  show ?case
    by (auto simp: Cons.IH AList.delete_eq intro!: filter_cong)
qed

lemma clearVoucherCache_storage:
  "localStorage (clearVoucherCache w) =
     filter (\<lambda>(k, v). \<not> startsWith k CACHE_KEY) (localStorage w)"
proof -
  have "fold (\<lambda>key ls. if startsWith key CACHE_KEY then AList.delete key ls else ls)
          (map fst (localStorage w)) (localStorage w)
        = filter (\<lambda>(k, v). \<not> startsWith k CACHE_KEY) (localStorage w)"
    unfolding fold_delete_filter by (rule filter_cong) force+
  then show ?thesis
    unfolding clearVoucherCache_def removeItem_def keys_def by simp
qed

lemma purge_storage:
  "localStorage (resetCategoryVisibility (clearVoucherCache w)) =
     filter (\<lambda>(k, v). \<not> startsWith k CACHE_KEY \<and> k \<noteq> CATEGORY_VISIBILITY_KEY) (localStorage w)"
  by (auto simp: resetCategoryVisibility_def clearVoucherCache_storage removeItem_def AList.delete_eq
        intro!: filter_cong)

lemma purge_noneHidden: "noneHidden (resetCategoryVisibility (clearVoucherCache w))"
proof -
  have "getItem (localStorage (resetCategoryVisibility (clearVoucherCache w))) (cacheKey i) = None" for i
    unfolding purge_storage getItem_def
    by (auto simp: map_of_eq_None_iff startsWith_cacheKey)
  then show ?thesis
    by (simp add: noneHidden_def storedEntry_def)
qed


lemma wellFormed_clear:
  "cacheWellFormed (localStorage (resetCategoryVisibility (clearVoucherCache w)))"
  by (auto simp: purge_storage cacheWellFormed_def list_all_iff)

subsection \<open>What a fetch cycle leaves alone\<close>

lemma noneHidden_frame [simp]:
  "noneHidden (w\<lparr>trace := t\<rparr>) = noneHidden w"
  "noneHidden (w\<lparr>discountArticles := ds\<rparr>) = noneHidden w"
  "noneHidden (w\<lparr>articleIds := ids\<rparr>) = noneHidden w"
  "noneHidden (w\<lparr>voucherCodes := cs\<rparr>) = noneHidden w"
  "noneHidden (w\<lparr>isLoading := b\<rparr>) = noneHidden w"
  "noneHidden (w\<lparr>error := er\<rparr>) = noneHidden w"
  by (simp_all add: noneHidden_def storedEntry_def)

lemma noneHidden_after_read: "noneHidden w \<Longrightarrow> noneHidden (snd (getCachedVoucherData clk k w))"
  by (simp add: noneHidden_def storedEntry_after_read)

lemma noneHidden_after_write:
  assumes "noneHidden w"
  shows "noneHidden (setCachedVoucherData clk k d w)"
proof -
  have "hiddenOrFalse (fst (getCachedVoucherDataFull clk k w)) = False"
    using assms
    by (auto simp: getCachedVoucherDataFull_eq hiddenOrFalse_def noneHidden_def
             split: option.splits)
  with assms show ?thesis
    by (simp add: noneHidden_def storedEntry_after_write)
qed

lemma categories_after_read [simp]:
  "hiddenCategories (snd (getCachedVoucherData clk k w)) = hiddenCategories w"
  by (simp add: getCachedVoucherData_eq split: option.splits)

lemma categories_after_write [simp]:
  "hiddenCategories (setCachedVoucherData clk k d w) = hiddenCategories w"
  by (simp add: setCachedVoucherData_eq getCachedVoucherDataFull_eq split: option.splits prod.splits)

lemma try_keeps:
  "hiddenCategories (snd (fetchVoucherCodeTry clk details k w)) = hiddenCategories w"
  "noneHidden w \<Longrightarrow> noneHidden (snd (fetchVoucherCodeTry clk details k w))"
proof -
  show "hiddenCategories (snd (fetchVoucherCodeTry clk details k w)) = hiddenCategories w"
    by (simp add: fetchVoucherCodeTry_def Let_def split: response.splits sum.splits)
  assume nh: "noneHidden w"
  then have nh1: "noneHidden (w\<lparr>trace := trace w @ [DetailRequest k]\<rparr>)"
    by simp
  then have "noneHidden (setCachedVoucherData clk k d (w\<lparr>trace := trace w @ [DetailRequest k]\<rparr>))" for d
    by (rule noneHidden_after_write)
  with nh1 show "noneHidden (snd (fetchVoucherCodeTry clk details k w))"
    by (simp add: fetchVoucherCodeTry_def Let_def split: response.splits sum.splits)
qed

lemma fetchVoucherCode_keeps:
  "hiddenCategories (snd (fetchVoucherCode clk details k w)) = hiddenCategories w"
  "noneHidden w \<Longrightarrow> noneHidden (snd (fetchVoucherCode clk details k w))"
proof -
  obtain r w1 where rw: "getCachedVoucherData clk k w = (r, w1)"
    by (cases "getCachedVoucherData clk k w")
  then have w1: "w1 = snd (getCachedVoucherData clk k w)" by simp
  obtain t w2 where tw: "fetchVoucherCodeTry clk details k w1 = (t, w2)"
    by (cases "fetchVoucherCodeTry clk details k w1")
  then have w2: "w2 = snd (fetchVoucherCodeTry clk details k w1)" by simp
  have c1: "hiddenCategories w1 = hiddenCategories w" by (simp add: w1)
  have c2: "hiddenCategories w2 = hiddenCategories w" by (simp add: w2 try_keeps(1) c1)
  from rw tw c1 c2
  show "hiddenCategories (snd (fetchVoucherCode clk details k w)) = hiddenCategories w"
    by (simp add: fetchVoucherCode_def split: option.splits sum.splits)
  assume nh: "noneHidden w"
  then have n1: "noneHidden w1" unfolding w1 by (rule noneHidden_after_read)
  then have n2: "noneHidden w2" unfolding w2 by (rule try_keeps(2))
  from rw tw n1 n2 show "noneHidden (snd (fetchVoucherCode clk details k w))"
    by (simp add: fetchVoucherCode_def split: option.splits sum.splits)
qed

lemma splice_keeps:
  "hiddenCategories (snd (spliceVoucherData i vd w)) = hiddenCategories w"
  "noneHidden (snd (spliceVoucherData i vd w)) = noneHidden w"
  by (simp_all add: spliceVoucherData_def)

lemma resolveArticle_keeps:
  "hiddenCategories (snd (resolveArticle clk details i article w)) = hiddenCategories w"
  "noneHidden w \<Longrightarrow> noneHidden (snd (resolveArticle clk details i article w))"
proof -
  let ?k = "a_id article"
  obtain r w1 where rw: "getCachedVoucherData clk ?k w = (r, w1)"
    by (cases "getCachedVoucherData clk ?k w")
  then have w1: "w1 = snd (getCachedVoucherData clk ?k w)" by simp
  obtain vd w2 where f: "fetchVoucherCode clk details ?k w1 = (vd, w2)"
    by (cases "fetchVoucherCode clk details ?k w1")
  then have w2: "w2 = snd (fetchVoucherCode clk details ?k w1)" by simp
  define inner where "inner =
    (case vd of None \<Rightarrow> (None, w2)
     | Some v \<Rightarrow> if truthy (code v) then spliceVoucherData i v w2 else (None, w2))"
  have c1: "hiddenCategories w1 = hiddenCategories w" by (simp add: w1)
  have c2: "hiddenCategories w2 = hiddenCategories w"
    by (simp add: w2 fetchVoucherCode_keeps(1) c1)
  have c3: "hiddenCategories (snd inner) = hiddenCategories w"
    by (simp add: inner_def c2 splice_keeps(1) split: option.splits)
  have res: "resolveArticle clk details i article w =
      (case r of
         Some cachedData \<Rightarrow>
           if truthy (code cachedData) then spliceVoucherData i cachedData w1 else (None, w1)
       | None \<Rightarrow>
          (case inner of (Some err, w3) \<Rightarrow> (Some err, w3)
           | (None, w3) \<Rightarrow> (None, w3\<lparr>trace := trace w3 @ [Delay 500]\<rparr>)))"
    by (simp add: resolveArticle_def rw f inner_def split: option.splits)
  show "hiddenCategories (snd (resolveArticle clk details i article w)) = hiddenCategories w"
    using c1 c3 by (cases inner) (auto simp: res splice_keeps(1) split: option.splits)
  assume nh: "noneHidden w"
  then have n1: "noneHidden w1" unfolding w1 by (rule noneHidden_after_read)
  then have n2: "noneHidden w2" unfolding w2 by (rule fetchVoucherCode_keeps(2))
  then have n3: "noneHidden (snd inner)"
    by (simp add: inner_def splice_keeps(2) split: option.splits)
  show "noneHidden (snd (resolveArticle clk details i article w))"
    using n1 n3
    by (cases inner) (auto simp: res splice_keeps(2) split: option.splits)
qed

lemma resolveDetails_keeps:
  "hiddenCategories (snd (resolveDetails clk details ias w)) = hiddenCategories w
   \<and> (noneHidden w \<longrightarrow> noneHidden (snd (resolveDetails clk details ias w)))"
proof (induction ias arbitrary: w)
  case Nil
  show ?case by simp
next
  case (Cons ia ias)
  obtain i article where ia: "ia = (i, article)" by (cases ia)
  obtain e w1 where step: "resolveArticle clk details i article w = (e, w1)"
    by (cases "resolveArticle clk details i article w")
  then have w1: "w1 = snd (resolveArticle clk details i article w)" by simp
  have c1: "hiddenCategories w1 = hiddenCategories w"
    unfolding w1 by (rule resolveArticle_keeps(1))
  have n1: "noneHidden w \<longrightarrow> noneHidden w1"
    unfolding w1 using resolveArticle_keeps(2) by blast
  show ?case
    using Cons.IH[of w1] c1 n1 by (cases e) (simp_all add: ia step)
qed

lemma fetchPages_keeps:
  "hiddenCategories (snd (fetchPages pages urls extracted w)) = hiddenCategories w
   \<and> localStorage (snd (fetchPages pages urls extracted w)) = localStorage w
   \<and> (\<exists>evs. trace (snd (fetchPages pages urls extracted w)) = trace w @ evs)"
proof (induction urls arbitrary: extracted w)
  case Nil
  show ?case by simp
next
  case (Cons u urls)
  let ?w1 = "w\<lparr>trace := trace w @ [PageRequest u]\<rparr>"
  have IH: "hiddenCategories (snd (fetchPages pages urls ex ?w1)) = hiddenCategories w
   \<and> localStorage (snd (fetchPages pages urls ex ?w1)) = localStorage w
   \<and> (\<exists>evs. trace (snd (fetchPages pages urls ex ?w1)) = trace w @ PageRequest u # evs)" for ex
    using Cons.IH[of ex ?w1] by auto
  show ?case
    using IH by (auto simp: Let_def split: response.splits sum.splits)
qed

lemma fetchPages_first_request:
  "\<exists>evs. trace (snd (fetchPages pages (u # urls) extracted w)) = trace w @ PageRequest u # evs"
proof -
  let ?w1 = "w\<lparr>trace := trace w @ [PageRequest u]\<rparr>"
  have "\<exists>evs. trace (snd (fetchPages pages urls ex ?w1)) = trace w @ PageRequest u # evs" for ex
    using fetchPages_keeps[of pages urls ex ?w1] by auto
  then show ?thesis
    by (auto simp: Let_def split: response.splits sum.splits)
qed

lemma fetchGrabFoodVouchers_keeps:
  "hiddenCategories (fetchGrabFoodVouchers clk pages details w) = hiddenCategories w"
  "noneHidden w \<Longrightarrow> noneHidden (fetchGrabFoodVouchers clk pages details w)"
  "\<exists>evs. trace (fetchGrabFoodVouchers clk pages details w)
           = trace w @ PageRequest (hd targetUrls) # evs"
proof -
  let ?w0 = "w\<lparr>isLoading := True, error := None\<rparr>"
  obtain r w1 where p: "fetchPages pages targetUrls [] ?w0 = (r, w1)"
    by (cases "fetchPages pages targetUrls [] ?w0")
  then have w1: "w1 = snd (fetchPages pages targetUrls [] ?w0)" by simp
  have c1: "hiddenCategories w1 = hiddenCategories w"
    and s1: "localStorage w1 = localStorage w"
    unfolding w1 using fetchPages_keeps[of pages targetUrls "[]" ?w0] by simp_all
  have n1: "noneHidden w1 = noneHidden w"
    using s1 by (simp add: noneHidden_def storedEntry_def)
  obtain evs1 where t1: "trace w1 = trace w @ PageRequest (hd targetUrls) # evs1"
    unfolding w1 targetUrls_def
    using fetchPages_first_request[of pages _ _ "[]" ?w0] by auto
  show "hiddenCategories (fetchGrabFoodVouchers clk pages details w) = hiddenCategories w"
  proof (cases r)
    case (Inl msg)
    with p c1 show ?thesis by (simp add: fetchGrabFoodVouchers_def)
  next
    case (Inr ex)
    let ?w2 = "w1\<lparr>discountArticles := ex, articleIds := map a_id ex, voucherCodes := []\<rparr>"
    obtain e w3 where d: "resolveDetails clk details (enumerate 0 ex) ?w2 = (e, w3)"
      by (cases "resolveDetails clk details (enumerate 0 ex) ?w2")
    then have "w3 = snd (resolveDetails clk details (enumerate 0 ex) ?w2)" by simp
    then have "hiddenCategories w3 = hiddenCategories w"
      using resolveDetails_keeps[of clk details "enumerate 0 ex" ?w2] c1 by simp
    with p Inr d show ?thesis
      by (cases e) (simp_all add: fetchGrabFoodVouchers_def)
  qed
  show "\<exists>evs. trace (fetchGrabFoodVouchers clk pages details w)
           = trace w @ PageRequest (hd targetUrls) # evs"
  proof (cases r)
    case (Inl msg)
    with p t1 show ?thesis by (simp add: fetchGrabFoodVouchers_def)
  next
    case (Inr ex)
    let ?w2 = "w1\<lparr>discountArticles := ex, articleIds := map a_id ex, voucherCodes := []\<rparr>"
    obtain e w3 where d: "resolveDetails clk details (enumerate 0 ex) ?w2 = (e, w3)"
      by (cases "resolveDetails clk details (enumerate 0 ex) ?w2")
    then have w3: "w3 = snd (resolveDetails clk details (enumerate 0 ex) ?w2)" by simp
    obtain evs2 where "trace w3 = trace ?w2 @ evs2"
      unfolding w3 using resolveDetails_trace[of clk details "enumerate 0 ex" ?w2] by blast
    with t1 have "trace w3 = trace w @ PageRequest (hd targetUrls) # (evs1 @ evs2)" by simp
    with p Inr d show ?thesis
      by (cases e) (simp_all add: fetchGrabFoodVouchers_def)
  qed
  assume nh: "noneHidden w"
  show "noneHidden (fetchGrabFoodVouchers clk pages details w)"
  proof (cases r)
    case (Inl msg)
    with p n1 nh show ?thesis by (simp add: fetchGrabFoodVouchers_def)
  next
    case (Inr ex)
    let ?w2 = "w1\<lparr>discountArticles := ex, articleIds := map a_id ex, voucherCodes := []\<rparr>"
    obtain e w3 where d: "resolveDetails clk details (enumerate 0 ex) ?w2 = (e, w3)"
      by (cases "resolveDetails clk details (enumerate 0 ex) ?w2")
    then have "w3 = snd (resolveDetails clk details (enumerate 0 ex) ?w2)" by simp
    then have "noneHidden w3"
      using resolveDetails_keeps[of clk details "enumerate 0 ex" ?w2] n1 nh by simp
    with p Inr d show ?thesis
      by (cases e) (simp_all add: fetchGrabFoodVouchers_def)
  qed
qed

lemma fetchPages_A_keeps:
  "hiddenCategories (snd (fetchPages_A clk pages hard urls extracted w)) = hiddenCategories w
   \<and> hiddenVouchers (snd (fetchPages_A clk pages hard urls extracted w)) = hiddenVouchers w
   \<and> localStorage (snd (fetchPages_A clk pages hard urls extracted w)) = localStorage w"
proof (induction urls arbitrary: extracted w)
  case Nil
  show ?case by simp
next
  case (Cons u urls)
  let ?plain = "w\<lparr>trace := trace w @ [PageRequest u]\<rparr>"
  let ?busted = "w\<lparr>tick := Suc (tick w),
                   trace := trace w @ [PageRequestNoCache u (clk (tick w))]\<rparr>"
  have IH1: "hiddenCategories (snd (fetchPages_A clk pages hard urls ex ?plain))
               = hiddenCategories w
   \<and> hiddenVouchers (snd (fetchPages_A clk pages hard urls ex ?plain)) = hiddenVouchers w
   \<and> localStorage (snd (fetchPages_A clk pages hard urls ex ?plain)) = localStorage w" for ex
    using Cons.IH[of ex ?plain] by simp
  have IH2: "hiddenCategories (snd (fetchPages_A clk pages hard urls ex ?busted))
               = hiddenCategories w
   \<and> hiddenVouchers (snd (fetchPages_A clk pages hard urls ex ?busted)) = hiddenVouchers w
   \<and> localStorage (snd (fetchPages_A clk pages hard urls ex ?busted)) = localStorage w" for ex
    using Cons.IH[of ex ?busted] by simp
  show ?case
    using IH1 IH2
    by (cases hard) (auto simp: Date_now_def split: response.splits sum.splits)
qed

lemma hard_refresh_A:
  "hiddenCategories (fetchGrabFoodVouchers_A clk pages True w) = hiddenCategories w
   \<and> hiddenVouchers (fetchGrabFoodVouchers_A clk pages True w) = []
   \<and> localStorage (fetchGrabFoodVouchers_A clk pages True w)
       = removeItem (localStorage w) HIDDEN_VOUCHERS_KEY_A"
proof -
  let ?w1 = "w\<lparr>isLoading := True, error := None, hiddenVouchers := [],
                localStorage := removeItem (localStorage w) HIDDEN_VOUCHERS_KEY_A\<rparr>"
  obtain r w2 where p: "fetchPages_A clk pages True targetUrls_A [] ?w1 = (r, w2)"
    by (cases "fetchPages_A clk pages True targetUrls_A [] ?w1")
  then have "w2 = snd (fetchPages_A clk pages True targetUrls_A [] ?w1)" by simp
  then have "hiddenCategories w2 = hiddenCategories w \<and> hiddenVouchers w2 = []
             \<and> localStorage w2 = removeItem (localStorage w) HIDDEN_VOUCHERS_KEY_A"
    using fetchPages_A_keeps[of clk pages True targetUrls_A "[]" ?w1] by simp
  with p show ?thesis
    by (cases r) (simp_all add: fetchGrabFoodVouchers_A_def)
qed

subsection \<open>What a fetch cycle on an empty cache requests\<close>

subsection \<open>Which entries a step can create\<close>

lemma stored_after_write_other:
  "storedEntry (setCachedVoucherData clk k d w) j \<noteq> None \<Longrightarrow> j = k \<or> storedEntry w j \<noteq> None"
  by (simp add: storedEntry_after_write split: if_splits)

lemma stored_after_read_other:
  "storedEntry (snd (getCachedVoucherData clk k w)) j \<noteq> None \<Longrightarrow> storedEntry w j \<noteq> None"
  by (simp add: storedEntry_after_read split: if_splits)

lemma storedEntry_frame [simp]:
  "storedEntry (w\<lparr>trace := t\<rparr>) j = storedEntry w j"
  "storedEntry (w\<lparr>discountArticles := ds\<rparr>) j = storedEntry w j"
  "storedEntry (w\<lparr>articleIds := ids\<rparr>) j = storedEntry w j"
  "storedEntry (w\<lparr>voucherCodes := cs\<rparr>) j = storedEntry w j"
  "storedEntry (w\<lparr>isLoading := b\<rparr>) j = storedEntry w j"
  "storedEntry (w\<lparr>error := er\<rparr>) j = storedEntry w j"
  by (simp_all add: storedEntry_def)

lemma stored_after_try:
  "storedEntry (snd (fetchVoucherCodeTry clk details k w)) j \<noteq> None \<Longrightarrow>
     j = k \<or> storedEntry w j \<noteq> None"
  using stored_after_write_other[of clk k _ "w\<lparr>trace := trace w @ [DetailRequest k]\<rparr>" j]
  by (auto simp: fetchVoucherCodeTry_def Let_def split: response.splits sum.splits if_splits)

lemma stored_after_fetchVoucherCode:
  assumes "storedEntry (snd (fetchVoucherCode clk details k w)) j \<noteq> None"
  shows "j = k \<or> storedEntry w j \<noteq> None"
proof -
  obtain r w1 where rw: "getCachedVoucherData clk k w = (r, w1)"
    by (cases "getCachedVoucherData clk k w")
  then have w1: "w1 = snd (getCachedVoucherData clk k w)" by simp
  obtain t w2 where tw: "fetchVoucherCodeTry clk details k w1 = (t, w2)"
    by (cases "fetchVoucherCodeTry clk details k w1")
  then have w2: "w2 = snd (fetchVoucherCodeTry clk details k w1)" by simp
  from rw tw assms have "storedEntry w1 j \<noteq> None \<or> storedEntry w2 j \<noteq> None"
    by (auto simp: fetchVoucherCode_def split: option.splits sum.splits)
  then have "j = k \<or> storedEntry w1 j \<noteq> None"
    unfolding w2 using stored_after_try by blast
  then show ?thesis
    unfolding w1 using stored_after_read_other by blast
qed

lemma stored_after_splice [simp]:
  "storedEntry (snd (spliceVoucherData i vd w)) j = storedEntry w j"
  by (simp add: spliceVoucherData_def)

lemma stored_after_resolveArticle:
  assumes "storedEntry (snd (resolveArticle clk details i article w)) j \<noteq> None"
  shows "j = a_id article \<or> storedEntry w j \<noteq> None"
proof -
  let ?k = "a_id article"
  obtain r w1 where rw: "getCachedVoucherData clk ?k w = (r, w1)"
    by (cases "getCachedVoucherData clk ?k w")
  then have w1: "w1 = snd (getCachedVoucherData clk ?k w)" by simp
  obtain vd w2 where f: "fetchVoucherCode clk details ?k w1 = (vd, w2)"
    by (cases "fetchVoucherCode clk details ?k w1")
  then have w2: "w2 = snd (fetchVoucherCode clk details ?k w1)" by simp
  define inner where "inner =
    (case vd of None \<Rightarrow> (None, w2)
     | Some v \<Rightarrow> if truthy (code v) then spliceVoucherData i v w2 else (None, w2))"
  have s3: "storedEntry (snd inner) j = storedEntry w2 j"
    by (simp add: inner_def split: option.splits)
  have res: "resolveArticle clk details i article w =
      (case r of
         Some cachedData \<Rightarrow>
           if truthy (code cachedData) then spliceVoucherData i cachedData w1 else (None, w1)
       | None \<Rightarrow>
          (case inner of (Some err, w3) \<Rightarrow> (Some err, w3)
           | (None, w3) \<Rightarrow> (None, w3\<lparr>trace := trace w3 @ [Delay 500]\<rparr>)))"
    by (simp add: resolveArticle_def rw f inner_def split: option.splits)
  from assms have "storedEntry w1 j \<noteq> None \<or> storedEntry w2 j \<noteq> None"
    using s3 by (cases inner) (auto simp: res split: option.splits if_splits)
  then have "j = ?k \<or> storedEntry w1 j \<noteq> None"
    unfolding w2 using stored_after_fetchVoucherCode by blast
  then show ?thesis
    unfolding w1 using stored_after_read_other by blast
qed

lemma resolveDetails_requested:
  assumes "\<forall>(i, article) \<in> set ias. i < length (discountArticles w)"
    and "\<forall>k. storedEntry w k \<noteq> None \<longrightarrow> DetailRequest k \<in> set evs0"
    and "trace w = t0 @ evs0"
  shows "\<exists>evs. trace (snd (resolveDetails clk details ias w)) = t0 @ evs0 @ evs
           \<and> (\<forall>(i, article) \<in> set ias. DetailRequest (a_id article) \<in> set (evs0 @ evs))"
  using assms
proof (induction ias arbitrary: w evs0)
  case Nil
  then show ?case by simp
next
  case (Cons ia ias)
  obtain i article where ia: "ia = (i, article)" by (cases ia)
  obtain e w1 where step: "resolveArticle clk details i article w = (e, w1)"
    by (cases "resolveArticle clk details i article w")
  then have w1: "w1 = snd (resolveArticle clk details i article w)" by simp
  from Cons.prems(1) ia have ir: "i < length (discountArticles w)" by simp
  then have e: "e = None"
    using resolveArticle_in_range[of i w clk details article] step by simp
  define evs1 where "evs1 = (if freshAt clk (a_id article) w then []
                             else [DetailRequest (a_id article), Delay 500])"
  have t1: "trace w1 = t0 @ (evs0 @ evs1)"
    unfolding w1 evs1_def using resolveArticle_effects[OF ir, of clk details article] Cons.prems(3)
    by simp
  have here: "DetailRequest (a_id article) \<in> set (evs0 @ evs1)"
  proof (cases "freshAt clk (a_id article) w")
    case True
    then have "storedEntry w (a_id article) \<noteq> None"
      by (auto simp: freshAt_def split: option.splits)
    with Cons.prems(2) show ?thesis by simp
  next
    case False
    then show ?thesis by (simp add: evs1_def)
  qed
  have inv: "\<forall>k. storedEntry w1 k \<noteq> None \<longrightarrow> DetailRequest k \<in> set (evs0 @ evs1)"
  proof (intro allI impI)
    fix k assume "storedEntry w1 k \<noteq> None"
    then have "k = a_id article \<or> storedEntry w k \<noteq> None"
      unfolding w1 by (rule stored_after_resolveArticle)
    with here Cons.prems(2) show "DetailRequest k \<in> set (evs0 @ evs1)" by auto
  qed
  have rng: "\<forall>(i, article) \<in> set ias. i < length (discountArticles w1)"
    using Cons.prems(1) by (simp add: w1)
  from Cons.IH[OF rng inv t1] obtain evs where
    evs: "trace (snd (resolveDetails clk details ias w1)) = t0 @ (evs0 @ evs1) @ evs"
      "\<forall>(i, article) \<in> set ias. DetailRequest (a_id article) \<in> set ((evs0 @ evs1) @ evs)"
    by blast
  have rd: "resolveDetails clk details ((i, article) # ias) w = resolveDetails clk details ias w1"
    using step e by simp
  from evs here have
    "trace (snd (resolveDetails clk details ((i, article) # ias) w)) = t0 @ evs0 @ (evs1 @ evs)
     \<and> (\<forall>(i, article) \<in> set ((i, article) # ias).
           DetailRequest (a_id article) \<in> set (evs0 @ (evs1 @ evs)))"
    unfolding rd by auto
  then show ?case unfolding ia by blast
qed

lemma fetchPages_success_trace:
  "fst (fetchPages pages urls extracted w) = Inr ex \<Longrightarrow>
     trace (snd (fetchPages pages urls extracted w)) = trace w @ map PageRequest urls"
proof (induction urls arbitrary: extracted w)
  case Nil
  then show ?case by simp
next
  case (Cons u urls)
  let ?w1 = "w\<lparr>trace := trace w @ [PageRequest u]\<rparr>"
  have IH: "fst (fetchPages pages urls e1 ?w1) = Inr ex \<Longrightarrow>
     trace (snd (fetchPages pages urls e1 ?w1)) = trace w @ PageRequest u # map PageRequest urls" for e1
    using Cons.IH[of e1 ?w1] by simp
  from Cons.prems show ?case
    using IH by (auto simp: Let_def split: response.splits sum.splits if_splits)
qed

subsection \<open>The article ids survive the detail loop\<close>

lemma ids_after_read [simp]:
  "articleIds (snd (getCachedVoucherData clk k w)) = articleIds w"
  by (simp add: getCachedVoucherData_eq split: option.splits)

lemma ids_after_write [simp]:
  "articleIds (setCachedVoucherData clk k d w) = articleIds w"
  by (simp add: setCachedVoucherData_eq getCachedVoucherDataFull_eq split: option.splits prod.splits)

lemma ids_try [simp]:
  "articleIds (snd (fetchVoucherCodeTry clk details k w)) = articleIds w"
  by (simp add: fetchVoucherCodeTry_def Let_def split: response.splits sum.splits)

lemma ids_fetchVoucherCode [simp]:
  "articleIds (snd (fetchVoucherCode clk details k w)) = articleIds w"
proof -
  obtain r w1 where rw: "getCachedVoucherData clk k w = (r, w1)"
    by (cases "getCachedVoucherData clk k w")
  then have w1: "w1 = snd (getCachedVoucherData clk k w)" by simp
  obtain t w2 where tw: "fetchVoucherCodeTry clk details k w1 = (t, w2)"
    by (cases "fetchVoucherCodeTry clk details k w1")
  then have w2: "w2 = snd (fetchVoucherCodeTry clk details k w1)" by simp
  have a1: "articleIds w1 = articleIds w" by (simp add: w1)
  have a2: "articleIds w2 = articleIds w" by (simp add: w2 a1)
  from rw tw a1 a2 show ?thesis
    by (simp add: fetchVoucherCode_def split: option.splits sum.splits)
qed

lemma ids_splice [simp]: "articleIds (snd (spliceVoucherData i vd w)) = articleIds w"
  by (simp add: spliceVoucherData_def)

lemma ids_resolveArticle [simp]:
  "articleIds (snd (resolveArticle clk details i article w)) = articleIds w"
proof -
  let ?k = "a_id article"
  obtain r w1 where rw: "getCachedVoucherData clk ?k w = (r, w1)"
    by (cases "getCachedVoucherData clk ?k w")
  then have w1: "w1 = snd (getCachedVoucherData clk ?k w)" by simp
  obtain vd w2 where f: "fetchVoucherCode clk details ?k w1 = (vd, w2)"
    by (cases "fetchVoucherCode clk details ?k w1")
  then have w2: "w2 = snd (fetchVoucherCode clk details ?k w1)" by simp
  define inner where "inner =
    (case vd of None \<Rightarrow> (None, w2)
     | Some v \<Rightarrow> if truthy (code v) then spliceVoucherData i v w2 else (None, w2))"
  have a1: "articleIds w1 = articleIds w" by (simp add: w1)
  have a2: "articleIds w2 = articleIds w" by (simp add: w2 a1)
  have a3: "articleIds (snd inner) = articleIds w"
    by (simp add: inner_def a2 split: option.splits)
  have res: "resolveArticle clk details i article w =
      (case r of
         Some cachedData \<Rightarrow>
           if truthy (code cachedData) then spliceVoucherData i cachedData w1 else (None, w1)
       | None \<Rightarrow>
          (case inner of (Some err, w3) \<Rightarrow> (Some err, w3)
           | (None, w3) \<Rightarrow> (None, w3\<lparr>trace := trace w3 @ [Delay 500]\<rparr>)))"
    by (simp add: resolveArticle_def rw f inner_def split: option.splits)
  show ?thesis
    using a1 a3 by (cases inner) (auto simp: res split: option.splits)
qed

lemma ids_resolveDetails [simp]:
  "articleIds (snd (resolveDetails clk details ias w)) = articleIds w"
proof (induction ias arbitrary: w)
  case Nil
  show ?case by simp
next
  case (Cons ia ias)
  obtain i article where ia: "ia = (i, article)" by (cases ia)
  obtain e w1 where step: "resolveArticle clk details i article w = (e, w1)"
    by (cases "resolveArticle clk details i article w")
  then have "w1 = snd (resolveArticle clk details i article w)" by simp
  then have "articleIds w1 = articleIds w" by simp
  with Cons.IH[of w1] show ?case
    by (cases e) (simp_all add: ia step)
qed

lemma purge_store_empty:
  "storedEntry (resetCategoryVisibility (clearVoucherCache w)) k = None"
proof -
  have "getItem (localStorage (resetCategoryVisibility (clearVoucherCache w))) (cacheKey k) = None"
    unfolding purge_storage getItem_def
    by (auto simp: map_of_eq_None_iff startsWith_cacheKey)
  then show ?thesis
    by (simp add: storedEntry_def)
qed

lemma fetchGrabFoodVouchers_full_cycle:
  assumes empty: "\<forall>k. storedEntry w k = None"
    and ok: "error (fetchGrabFoodVouchers clk pages details w) = None"
  shows "\<exists>evs. trace (fetchGrabFoodVouchers clk pages details w)
                  = trace w @ map PageRequest targetUrls @ evs
           \<and> throttled evs
           \<and> (\<forall>k \<in> set (articleIds (fetchGrabFoodVouchers clk pages details w)).
                 DetailRequest k \<in> set evs)"
proof -
  let ?w0 = "w\<lparr>isLoading := True, error := None\<rparr>"
  obtain r w1 where p: "fetchPages pages targetUrls [] ?w0 = (r, w1)"
    by (cases "fetchPages pages targetUrls [] ?w0")
  then have w1: "w1 = snd (fetchPages pages targetUrls [] ?w0)"
    and r: "r = fst (fetchPages pages targetUrls [] ?w0)" by simp_all
  have s1: "localStorage w1 = localStorage w"
    unfolding w1 using fetchPages_keeps[of pages targetUrls "[]" ?w0] by simp
  show ?thesis
  proof (cases r)
    case (Inl msg)
    with p ok show ?thesis by (simp add: fetchGrabFoodVouchers_def)
  next
    case (Inr ex)
    let ?w2 = "w1\<lparr>discountArticles := ex, articleIds := map a_id ex, voucherCodes := []\<rparr>"
    have t1: "trace w1 = trace w @ map PageRequest targetUrls"
      unfolding w1 using fetchPages_success_trace[of pages targetUrls "[]" ?w0 ex] Inr r by simp
    obtain e w3 where d: "resolveDetails clk details (enumerate 0 ex) ?w2 = (e, w3)"
      by (cases "resolveDetails clk details (enumerate 0 ex) ?w2")
    then have w3: "w3 = snd (resolveDetails clk details (enumerate 0 ex) ?w2)"
      and e: "e = fst (resolveDetails clk details (enumerate 0 ex) ?w2)" by simp_all
    have rng: "\<forall>(i, article) \<in> set (enumerate 0 ex). i < length (discountArticles ?w2)"
      by (auto simp: in_set_enumerate_eq)
    have inv: "\<forall>k. storedEntry ?w2 k \<noteq> None \<longrightarrow> DetailRequest k \<in> set []"
      using empty s1 by (simp add: storedEntry_def)
    have t2: "trace ?w2 = trace ?w2 @ []" by simp
    from resolveDetails_requested[OF rng inv t2, of clk details] obtain evs where
      evs: "trace w3 = trace ?w2 @ evs"
        "\<forall>(i, article) \<in> set (enumerate 0 ex). DetailRequest (a_id article) \<in> set evs"
      unfolding w3 by auto
    from resolveDetails_trace[of clk details "enumerate 0 ex" ?w2] obtain evs' where
      evs': "trace w3 = trace ?w2 @ evs'" "throttled evs'"
      unfolding w3 by blast
    from evs(1) evs'(1) have "evs' = evs" by simp
    with evs'(2) have th: "throttled evs" by simp
    have ids: "articleIds w3 = map a_id ex"
      unfolding w3 by simp
    have all: "\<forall>k \<in> set (map a_id ex). DetailRequest k \<in> set evs"
    proof
      fix k assume "k \<in> set (map a_id ex)"
      then obtain a where a: "a \<in> set ex" "k = a_id a" by auto
      then obtain i where "i < length ex" "ex ! i = a" by (auto simp: in_set_conv_nth)
      then have "(i, a) \<in> set (enumerate 0 ex)" by (simp add: in_set_enumerate_eq)
      with evs(2) a show "DetailRequest k \<in> set evs" by auto
    qed
    have en: "e = None"
      unfolding e using resolveDetails_effects[OF rng, of clk details] by simp
    have F: "fetchGrabFoodVouchers clk pages details w = w3\<lparr>isLoading := False\<rparr>"
      using p Inr d en by (simp add: fetchGrabFoodVouchers_def)
    have "trace (w3\<lparr>isLoading := False\<rparr>) = trace w @ map PageRequest targetUrls @ evs
           \<and> throttled evs
           \<and> (\<forall>k \<in> set (articleIds (w3\<lparr>isLoading := False\<rparr>)). DetailRequest k \<in> set evs)"
      using evs(1) t1 th ids all by simp
    then show ?thesis unfolding F by blast
  qed
qed

lemma fetchPages_A_busting:
  "\<exists>evs. trace (snd (fetchPages_A clk pages True urls extracted w)) = trace w @ evs
          \<and> list_all cacheBusting evs"
proof (induction urls arbitrary: extracted w)
  case Nil
  show ?case by simp
next
  case (Cons u urls)
  let ?busted = "w\<lparr>tick := Suc (tick w),
                   trace := trace w @ [PageRequestNoCache u (clk (tick w))]\<rparr>"
  have IH: "\<exists>evs. trace (snd (fetchPages_A clk pages True urls ex ?busted))
                    = trace w @ evs \<and> list_all cacheBusting evs" for ex
  proof -
    from Cons.IH[of ex ?busted] obtain evs where
      "trace (snd (fetchPages_A clk pages True urls ex ?busted))
         = trace w @ (PageRequestNoCache u (clk (tick w)) # evs)"
      "list_all cacheBusting (PageRequestNoCache u (clk (tick w)) # evs)"
      by auto
    then show ?thesis by blast
  qed
  have here: "\<exists>evs. trace ?busted = trace w @ evs \<and> list_all cacheBusting evs"
    by simp
  show ?case
    using IH here
    by (auto simp: Date_now_def split: response.splits sum.splits)
qed

lemma fetchPages_A_first_busting:
  "\<exists>evs. trace (snd (fetchPages_A clk pages True (u # urls) extracted w))
           = trace w @ PageRequestNoCache u (clk (tick w)) # evs
          \<and> list_all cacheBusting evs"
proof -
  let ?busted = "w\<lparr>tick := Suc (tick w),
                   trace := trace w @ [PageRequestNoCache u (clk (tick w))]\<rparr>"
  have IH: "\<exists>evs. trace (snd (fetchPages_A clk pages True urls ex ?busted))
                    = trace w @ PageRequestNoCache u (clk (tick w)) # evs
                  \<and> list_all cacheBusting evs" for ex
    using fetchPages_A_busting[of clk pages urls ex ?busted] by auto
  have here: "\<exists>evs. trace ?busted = trace w @ PageRequestNoCache u (clk (tick w)) # evs
                \<and> list_all cacheBusting evs"
    by simp
  show ?thesis
    using IH here
    by (auto simp: Date_now_def split: response.splits sum.splits)
qed

lemma hard_refresh_A_trace:
  "\<exists>evs. trace (fetchGrabFoodVouchers_A clk pages True w)
           = trace w @ PageRequestNoCache (hd targetUrls_A) (clk (tick w)) # evs
          \<and> list_all cacheBusting evs"
proof -
  let ?w1 = "w\<lparr>isLoading := True, error := None, hiddenVouchers := [],
                localStorage := removeItem (localStorage w) HIDDEN_VOUCHERS_KEY_A\<rparr>"
  obtain r w2 where p: "fetchPages_A clk pages True targetUrls_A [] ?w1 = (r, w2)"
    by (cases "fetchPages_A clk pages True targetUrls_A [] ?w1")
  then have w2: "w2 = snd (fetchPages_A clk pages True targetUrls_A [] ?w1)" by simp
  have "\<exists>evs. trace w2 = trace w @ PageRequestNoCache (hd targetUrls_A) (clk (tick w)) # evs
          \<and> list_all cacheBusting evs"
    unfolding w2 targetUrls_A_def
    using fetchPages_A_first_busting[of clk pages _ _ "[]" ?w1] by simp
  with p show ?thesis
    by (cases r) (simp_all add: fetchGrabFoodVouchers_A_def)
qed

lemma ids_of_splice [simp]:
  "map a_id (discountArticles (snd (spliceVoucherData i vd w))) = map a_id (discountArticles w)"
  by (simp add: spliceVoucherData_def map_update list_update_same_conv)

lemma ids_of_resolveArticle [simp]:
  "map a_id (discountArticles (snd (resolveArticle clk details i article w)))
     = map a_id (discountArticles w)"
proof -
  let ?k = "a_id article"
  obtain r w1 where rw: "getCachedVoucherData clk ?k w = (r, w1)"
    by (cases "getCachedVoucherData clk ?k w")
  then have w1: "w1 = snd (getCachedVoucherData clk ?k w)" by simp
  obtain vd w2 where f: "fetchVoucherCode clk details ?k w1 = (vd, w2)"
    by (cases "fetchVoucherCode clk details ?k w1")
  then have w2: "w2 = snd (fetchVoucherCode clk details ?k w1)" by simp
  define inner where "inner =
    (case vd of None \<Rightarrow> (None, w2)
     | Some v \<Rightarrow> if truthy (code v) then spliceVoucherData i v w2 else (None, w2))"
  have a1: "discountArticles w1 = discountArticles w" by (simp add: w1)
  have a2: "discountArticles w2 = discountArticles w" by (simp add: w2 a1)
  have a3: "map a_id (discountArticles (snd inner)) = map a_id (discountArticles w)"
    by (simp add: inner_def a2 split: option.splits)
  have res: "resolveArticle clk details i article w =
      (case r of
         Some cachedData \<Rightarrow>
           if truthy (code cachedData) then spliceVoucherData i cachedData w1 else (None, w1)
       | None \<Rightarrow>
          (case inner of (Some err, w3) \<Rightarrow> (Some err, w3)
           | (None, w3) \<Rightarrow> (None, w3\<lparr>trace := trace w3 @ [Delay 500]\<rparr>)))"
    by (simp add: resolveArticle_def rw f inner_def split: option.splits)
  show ?thesis
    using a1 a3 by (cases inner) (auto simp: res split: option.splits)
qed

lemma ids_of_resolveDetails [simp]:
  "map a_id (discountArticles (snd (resolveDetails clk details ias w)))
     = map a_id (discountArticles w)"
proof (induction ias arbitrary: w)
  case Nil
  show ?case by simp
next
  case (Cons ia ias)
  obtain i article where ia: "ia = (i, article)" by (cases ia)
  obtain e w1 where step: "resolveArticle clk details i article w = (e, w1)"
    by (cases "resolveArticle clk details i article w")
  then have "w1 = snd (resolveArticle clk details i article w)" by simp
  then have "map a_id (discountArticles w1) = map a_id (discountArticles w)" by simp
  with Cons.IH[of w1] show ?case
    by (cases e) (simp_all add: ia step)
qed

lemma fetchGrabFoodVouchers_ids:
  assumes "error (fetchGrabFoodVouchers clk pages details w) = None"
  shows "map a_id (discountArticles (fetchGrabFoodVouchers clk pages details w))
           = articleIds (fetchGrabFoodVouchers clk pages details w)"
proof -
  let ?w0 = "w\<lparr>isLoading := True, error := None\<rparr>"
  obtain r w1 where p: "fetchPages pages targetUrls [] ?w0 = (r, w1)"
    by (cases "fetchPages pages targetUrls [] ?w0")
  show ?thesis
  proof (cases r)
    case (Inl msg)
    with p assms show ?thesis by (simp add: fetchGrabFoodVouchers_def)
  next
    case (Inr ex)
    let ?w2 = "w1\<lparr>discountArticles := ex, articleIds := map a_id ex, voucherCodes := []\<rparr>"
    obtain e w3 where d: "resolveDetails clk details (enumerate 0 ex) ?w2 = (e, w3)"
      by (cases "resolveDetails clk details (enumerate 0 ex) ?w2")
    then have w3: "w3 = snd (resolveDetails clk details (enumerate 0 ex) ?w2)" by simp
    have "map a_id (discountArticles w3) = map a_id ex" "articleIds w3 = map a_id ex"
      unfolding w3 by simp_all
    with p Inr d show ?thesis
      by (cases e) (simp_all add: fetchGrabFoodVouchers_def)
  qed
qed

text \<open>
  C4 (amended). On the detail-fetching page \<^verbatim>\<open>forceRefresh\<close> first removes every key under
  the cache key namespace and the stored category map, keeping every other key, and empties
  the category map in memory; then it runs a fetch cycle on that state, which starts with
  the request for the first list page. After the cycle the category map is still empty and
  every cache entry the cycle wrote has \<open>hidden = false\<close>. A cycle that ends without an error
  is a full one: it has requested every list page in order and then, the cache being empty,
  the detail of every article of the resulting list, every delay directly following a detail
  request. On the list-only page a hard refresh empties the hidden list and removes its key,
  and leaves the category map and every other key of the store as they were; every request
  it sends carries the cache-busting time stamp, the first one being that of the first list
  page stamped with the clock reading at the start.
\<close>

theorem forceRefresh_purges_then_fetches:
  "localStorage (resetCategoryVisibility (clearVoucherCache w)) =
     filter (\<lambda>(k, v). \<not> startsWith k CACHE_KEY \<and> k \<noteq> CATEGORY_VISIBILITY_KEY) (localStorage w)
   \<and> hiddenCategories (resetCategoryVisibility (clearVoucherCache w)) = []
   \<and> forceRefresh clk pages details w =
       fetchGrabFoodVouchers clk pages details (resetCategoryVisibility (clearVoucherCache w))
   \<and> (\<exists>evs. trace (forceRefresh clk pages details w)
              = trace w @ PageRequest (hd targetUrls) # evs)
   \<and> hiddenCategories (forceRefresh clk pages details w) = []
   \<and> (\<forall>articleId e. storedEntry (forceRefresh clk pages details w) articleId = Some e \<longrightarrow>
          hidden e = Some False)
   \<and> hiddenCategories (fetchGrabFoodVouchers_A clk pages_A True w) = hiddenCategories w
   \<and> hiddenVouchers (fetchGrabFoodVouchers_A clk pages_A True w) = []
   \<and> localStorage (fetchGrabFoodVouchers_A clk pages_A True w)
       = removeItem (localStorage w) HIDDEN_VOUCHERS_KEY_A
   \<and> (error (forceRefresh clk pages details w) = None \<longrightarrow>
        (\<exists>evs. trace (forceRefresh clk pages details w)
                  = trace w @ map PageRequest targetUrls @ evs
           \<and> throttled evs
           \<and> (\<forall>a \<in> set (discountArticles (forceRefresh clk pages details w)).
                 DetailRequest (a_id a) \<in> set evs)))
   \<and> (\<exists>evs. trace (fetchGrabFoodVouchers_A clk pages_A True w)
              = trace w @ PageRequestNoCache (hd targetUrls_A) (clk (tick w)) # evs
          \<and> list_all cacheBusting evs)"
proof -
  let ?p = "resetCategoryVisibility (clearVoucherCache w)"
  have hc: "hiddenCategories ?p = []" and tr: "trace ?p = trace w"
    by (simp_all add: resetCategoryVisibility_def clearVoucherCache_def)
  have "noneHidden (forceRefresh clk pages details w)"
    unfolding forceRefresh_def
    by (rule fetchGrabFoodVouchers_keeps(2)) (rule purge_noneHidden)
  then have nh: "\<forall>articleId e. storedEntry (forceRefresh clk pages details w) articleId = Some e
                   \<longrightarrow> hidden e = Some False"
    by (simp add: noneHidden_def)
  have t: "\<exists>evs. trace (forceRefresh clk pages details w)
              = trace w @ PageRequest (hd targetUrls) # evs"
    unfolding forceRefresh_def
    using fetchGrabFoodVouchers_keeps(3)[of clk pages details ?p] tr by simp
  have c: "hiddenCategories (forceRefresh clk pages details w) = []"
    unfolding forceRefresh_def by (simp add: fetchGrabFoodVouchers_keeps(1) hc)
  have full: "error (forceRefresh clk pages details w) = None \<longrightarrow>
        (\<exists>evs. trace (forceRefresh clk pages details w)
                  = trace w @ map PageRequest targetUrls @ evs
           \<and> throttled evs
           \<and> (\<forall>a \<in> set (discountArticles (forceRefresh clk pages details w)).
                 DetailRequest (a_id a) \<in> set evs))"
  proof
    assume ok: "error (forceRefresh clk pages details w) = None"
    then have ok': "error (fetchGrabFoodVouchers clk pages details ?p) = None"
      by (simp add: forceRefresh_def)
    have empty: "\<forall>k. storedEntry ?p k = None"
      by (simp add: purge_store_empty)
    from fetchGrabFoodVouchers_full_cycle[OF empty ok'] obtain evs where
      evs: "trace (fetchGrabFoodVouchers clk pages details ?p)
              = trace w @ map PageRequest targetUrls @ evs"
        "throttled evs"
        "\<forall>k \<in> set (articleIds (fetchGrabFoodVouchers clk pages details ?p)).
            DetailRequest k \<in> set evs"
      unfolding tr by blast
    have "\<forall>a \<in> set (discountArticles (fetchGrabFoodVouchers clk pages details ?p)).
            DetailRequest (a_id a) \<in> set evs"
    proof
      fix a assume "a \<in> set (discountArticles (fetchGrabFoodVouchers clk pages details ?p))"
      then have "a_id a \<in> set (map a_id (discountArticles
                                 (fetchGrabFoodVouchers clk pages details ?p)))"
        by simp
      then have "a_id a \<in> set (articleIds (fetchGrabFoodVouchers clk pages details ?p))"
        unfolding fetchGrabFoodVouchers_ids[OF ok'] .
      with evs(3) show "DetailRequest (a_id a) \<in> set evs" by blast
    qed
    with evs(1,2) show "\<exists>evs. trace (forceRefresh clk pages details w)
                  = trace w @ map PageRequest targetUrls @ evs
           \<and> throttled evs
           \<and> (\<forall>a \<in> set (discountArticles (forceRefresh clk pages details w)).
                 DetailRequest (a_id a) \<in> set evs)"
      unfolding forceRefresh_def by blast
  qed
  note bust = hard_refresh_A_trace[of clk pages_A w]
  have rest: "localStorage (resetCategoryVisibility (clearVoucherCache w)) =
     filter (\<lambda>(k, v). \<not> startsWith k CACHE_KEY \<and> k \<noteq> CATEGORY_VISIBILITY_KEY) (localStorage w)
   \<and> hiddenCategories (resetCategoryVisibility (clearVoucherCache w)) = []
   \<and> forceRefresh clk pages details w =
       fetchGrabFoodVouchers clk pages details (resetCategoryVisibility (clearVoucherCache w))
   \<and> (\<exists>evs. trace (forceRefresh clk pages details w)
              = trace w @ PageRequest (hd targetUrls) # evs)
   \<and> hiddenCategories (forceRefresh clk pages details w) = []
   \<and> (\<forall>articleId e. storedEntry (forceRefresh clk pages details w) articleId = Some e \<longrightarrow>
          hidden e = Some False)
   \<and> hiddenCategories (fetchGrabFoodVouchers_A clk pages_A True w) = hiddenCategories w
   \<and> hiddenVouchers (fetchGrabFoodVouchers_A clk pages_A True w) = []
   \<and> localStorage (fetchGrabFoodVouchers_A clk pages_A True w)
       = removeItem (localStorage w) HIDDEN_VOUCHERS_KEY_A"
    using purge_storage hc nh t c hard_refresh_A[of clk pages_A w]
    by (simp add: forceRefresh_def)
  from rest full bust show ?thesis by blast
qed

text \<open>
  C4 as stated fails on the list-only page: from five cache entries and the category map
  \<open>{grabfood: true}\<close> its hard refresh ends with the same map and the same five entries.
\<close>

theorem hard_refresh_keeps_visibility_and_cache:
  "hiddenCategories (fetchGrabFoodVouchers_A (\<lambda>n. 0) scenarioPages_A True fiveEntryWorld)
     = [(''grabfood'', True)]
   \<and> length (cacheKeys (fetchGrabFoodVouchers_A (\<lambda>n. 0) scenarioPages_A True fiveEntryWorld)) = 5"
  by code_simp

theorem forceRefresh_purges_then_fetches_witness:
  "length (cacheKeys fiveEntryWorld) = 5
   \<and> hiddenCategories fiveEntryWorld = [(''grabfood'', True)]
   \<and> cacheKeys (resetCategoryVisibility (clearVoucherCache fiveEntryWorld)) = []
   \<and> keys (localStorage (resetCategoryVisibility (clearVoucherCache fiveEntryWorld)))
       = [''grabfood-custom-vouchers'']
   \<and> hiddenCategories (forceRefresh (\<lambda>n. 0) scenarioPages scenarioDetails fiveEntryWorld) = []
   \<and> map_option hidden
        (storedEntry (forceRefresh (\<lambda>n. 0) scenarioPages scenarioDetails fiveEntryWorld)
           ''offer101'')
       = Some (Some False)
   \<and> error (forceRefresh (\<lambda>n. 0) scenarioPages scenarioDetails fiveEntryWorld) = None
   \<and> map a_id (discountArticles
                  (forceRefresh (\<lambda>n. 0) scenarioPages scenarioDetails fiveEntryWorld))
       = [''offer101'', ''offer102'', ''offer103'']
   \<and> DetailRequest ''offer101''
       \<in> set (trace (forceRefresh (\<lambda>n. 0) scenarioPages scenarioDetails fiveEntryWorld))
   \<and> DetailRequest ''offer102''
       \<in> set (trace (forceRefresh (\<lambda>n. 0) scenarioPages scenarioDetails fiveEntryWorld))
   \<and> DetailRequest ''offer103''
       \<in> set (trace (forceRefresh (\<lambda>n. 0) scenarioPages scenarioDetails fiveEntryWorld))"
proof -
  let ?F = "forceRefresh (\<lambda>n. 0) scenarioPages scenarioDetails fiveEntryWorld"
  note th = forceRefresh_purges_then_fetches
              [of fiveEntryWorld "\<lambda>n. 0" scenarioPages scenarioDetails scenarioPages_A]
  have five: "length (cacheKeys fiveEntryWorld) = 5"
    and hc: "hiddenCategories fiveEntryWorld = [(''grabfood'', True)]"
    by code_simp+
  have flt: "filter (\<lambda>(k, v). \<not> startsWith k CACHE_KEY \<and> k \<noteq> CATEGORY_VISIBILITY_KEY)
               (localStorage fiveEntryWorld)
             = [(''grabfood-custom-vouchers'', OtherText ''[]'')]"
    by code_simp
  from th flt
  have st: "localStorage (resetCategoryVisibility (clearVoucherCache fiveEntryWorld))
              = [(''grabfood-custom-vouchers'', OtherText ''[]'')]"
    by simp
  have ks: "cacheKeys (resetCategoryVisibility (clearVoucherCache fiveEntryWorld)) = []"
    "keys (localStorage (resetCategoryVisibility (clearVoucherCache fiveEntryWorld)))
       = [''grabfood-custom-vouchers'']"
    unfolding cacheKeys_def st by (simp_all add: keys_def startsWith_def CACHE_KEY_def)
  have "storedEntry ?F ''offer101'' \<noteq> None"
    by code_simp
  then obtain e where
    e: "storedEntry ?F ''offer101'' = Some e"
    by auto
  with th have h: "hidden e = Some False" by blast
  from th have c: "hiddenCategories ?F = []"
    by blast
  have ok: "error ?F = None"
    by code_simp
  have ids: "map a_id (discountArticles ?F) = [''offer101'', ''offer102'', ''offer103'']"
    by code_simp
  from th ok obtain evs where
    evs: "trace ?F = trace fiveEntryWorld @ map PageRequest targetUrls @ evs"
      "\<forall>a \<in> set (discountArticles ?F). DetailRequest (a_id a) \<in> set evs"
    by blast
  from evs(2) have "\<forall>k \<in> set (map a_id (discountArticles ?F)). DetailRequest k \<in> set evs"
    by simp
  then have "DetailRequest ''offer101'' \<in> set evs" "DetailRequest ''offer102'' \<in> set evs"
    "DetailRequest ''offer103'' \<in> set evs"
    unfolding ids by simp_all
  with evs(1) have req: "DetailRequest ''offer101'' \<in> set (trace ?F)"
    "DetailRequest ''offer102'' \<in> set (trace ?F)"
    "DetailRequest ''offer103'' \<in> set (trace ?F)"
    by simp_all
  from five hc ks c e h ok ids req show ?thesis by simp
qed

end
